theory Spec2Isabelle
  imports Complex_Main "HOL-Library.Sublist" "HOL-Library.AList"
begin

section \<open>Strings and decoded JSON values\<close>

text \<open>
  A Python \<open>str\<close> is a sequence of Unicode code points; it is modelled as the list of
  its code points. ASCII literals of the source are written \<open>ascii ''...''\<close>, other
  literals as their code points.
\<close>

type_synonym pystr = "nat list"

definition ascii :: "string \<Rightarrow> pystr" where
  "ascii s = map of_char s"

text \<open>
  The values \<open>json.loads\<close> produces. An object keeps its members in order, as a Python
  \<open>dict\<close> does; \<open>JNull\<close> is \<open>None\<close>. A float is carried as a real number
  (\<open>NaN\<close> and the infinities are not represented).
\<close>

datatype json =
    JNull
  | JBool bool
  | JInt int
  | JFloat real
  | JStr pystr
  | JArr "json list"
  | JObj "(pystr \<times> json) list"

text \<open>
  The exceptions the modelled code meets. Each is a subclass of \<open>Exception\<close>, so an
  \<open>except Exception\<close> clause (and a bare \<open>except\<close>) catches every one of them.
  \<open>ProviderError\<close> stands for whatever an outbound call raises (network error, timeout,
  provider error code); \<open>ChatError\<close> is the \<open>Exception\<close> that \<open>DeepSeekAI.chat\<close>
  raises itself.
\<close>

datatype pyerr =
    JSONDecodeError
  | AttributeError
  | TypeError
  | KeyError
  | IndexError
  | ProviderError
  | ChatError

text \<open>Truth value of a decoded value (\<open>if x:\<close>, \<open>not x\<close>, \<open>x and y\<close>).\<close>

fun truthy :: "json \<Rightarrow> bool" where
  "truthy JNull = False"
| "truthy (JBool b) = b"
| "truthy (JInt i) = (i \<noteq> 0)"
| "truthy (JFloat x) = (x \<noteq> 0)"
| "truthy (JStr s) = (s \<noteq> [])"
| "truthy (JArr xs) = (xs \<noteq> [])"
| "truthy (JObj kvs) = (kvs \<noteq> [])"

text \<open>\<open>d.get(k, default)\<close>: only a dict has the method.\<close>

definition py_get :: "json \<Rightarrow> pystr \<Rightarrow> json \<Rightarrow> pyerr + json" where
  "py_get d k dflt =
     (case d of
        JObj kvs \<Rightarrow> Inr (case map_of kvs k of Some v \<Rightarrow> v | None \<Rightarrow> dflt)
      | _ \<Rightarrow> Inl AttributeError)"

text \<open>\<open>d[k]\<close> for a string key: \<open>KeyError\<close> on a dict without the key, \<open>TypeError\<close>
  on a list, a string, a number or \<open>None\<close>.\<close>

definition py_item :: "json \<Rightarrow> pystr \<Rightarrow> pyerr + json" where
  "py_item d k =
     (case d of
        JObj kvs \<Rightarrow> (case map_of kvs k of Some v \<Rightarrow> Inr v | None \<Rightarrow> Inl KeyError)
      | _ \<Rightarrow> Inl TypeError)"

text \<open>\<open>for x in v\<close>: a list yields its elements, a string its characters, a dict its
  keys; anything else is not iterable.\<close>

definition py_iter :: "json \<Rightarrow> pyerr + json list" where
  "py_iter v =
     (case v of
        JArr xs \<Rightarrow> Inr xs
      | JStr s \<Rightarrow> Inr (map (\<lambda>c. JStr [c]) s)
      | JObj kvs \<Rightarrow> Inr (map (\<lambda>kv. JStr (fst kv)) kvs)
      | _ \<Rightarrow> Inl TypeError)"

text \<open>\<open>v[:n]\<close>: lists and strings can be sliced.\<close>

definition py_slice :: "json \<Rightarrow> nat \<Rightarrow> pyerr + json" where
  "py_slice v n =
     (case v of
        JArr xs \<Rightarrow> Inr (JArr (take n xs))
      | JStr s \<Rightarrow> Inr (JStr (take n s))
      | _ \<Rightarrow> Inl TypeError)"

text \<open>\<open>sep.join(parts)\<close> on strings.\<close>

fun str_join :: "pystr \<Rightarrow> pystr list \<Rightarrow> pystr" where
  "str_join sep [] = []"
| "str_join sep [x] = x"
| "str_join sep (x # y # ys) = x @ sep @ str_join sep (y # ys)"

text \<open>\<open>str(n)\<close> for an integer: its decimal digits.\<close>

fun digits :: "nat \<Rightarrow> pystr" where
  "digits n = (if n < 10 then [48 + n] else digits (n div 10) @ [48 + n mod 10])"

declare digits.simps [simp del]

definition str_int :: "int \<Rightarrow> pystr" where
  "str_int i = (if i < 0 then 45 # digits (nat (- i)) else digits (nat i))"

text \<open>\<open>x or default\<close> for an optional string: \<open>None\<close> and the empty string are false.\<close>

text \<open>Running on after a step that may raise.\<close>

definition on_ok :: "pyerr + 'a \<Rightarrow> ('a \<Rightarrow> pyerr + 'b) \<Rightarrow> pyerr + 'b" where
  "on_ok r f = (case r of Inl err \<Rightarrow> Inl err | Inr v \<Rightarrow> f v)"

text \<open>\<open>sep.join(v)\<close> on a decoded value: its elements must all be strings.\<close>

definition str_of :: "json \<Rightarrow> pystr" where
  "str_of v = (case v of JStr s \<Rightarrow> s | _ \<Rightarrow> [])"

definition py_join :: "pystr \<Rightarrow> json \<Rightarrow> pyerr + pystr" where
  "py_join sep v =
     (case py_iter v of
        Inl err \<Rightarrow> Inl TypeError
      | Inr xs \<Rightarrow>
          if list_all (\<lambda>x. case x of JStr s \<Rightarrow> True | _ \<Rightarrow> False) xs
          then Inr (str_join sep (map str_of xs)) else Inl TypeError)"


section \<open>Data model\<close>

text \<open>
  \<open>AmapClient._parse_pois\<close> builds every search result as a dict with exactly these
  keys; \<open>rating\<close> and \<open>cost\<close> are whatever the provider sent (or \<open>None\<close>).
\<close>

record poi =
  poi_id :: pystr
  poi_name :: pystr
  poi_address :: pystr
  poi_location :: pystr
  poi_type :: pystr
  poi_tel :: pystr
  poi_rating :: json
  poi_cost :: json

text \<open>\<open>models.TransportMode\<close> and \<open>models.PlanRequest\<close>.\<close>

datatype transport = WALKING | DRIVING | TRANSIT | BICYCLING

fun transport_value :: "transport \<Rightarrow> pystr" where
  "transport_value WALKING = ascii ''walking''"
| "transport_value DRIVING = ascii ''driving''"
| "transport_value TRANSIT = ascii ''transit''"
| "transport_value BICYCLING = ascii ''bicycling''"

record plan_request =
  req_destination :: pystr
  req_days :: int
  req_preferences :: "pystr list"
  req_description :: "pystr option"
  req_budget :: "real option"
  req_budget_level :: "pystr option"
  req_travel_with :: "pystr option"
  req_start_date :: "pystr option"
  req_transport_mode :: transport

text \<open>
  What \<open>AmapClient.get_weather\<close> returns, from the map provider and from the fallback
  provider alike: \<^verbatim>\<open>{"live": ..., "forecasts": [...]}\<close>, the forecasts being the list of
  daily casts.
\<close>

record weather =
  w_live :: json
  w_forecasts :: "json list"

definition weather_json :: "weather \<Rightarrow> json" where
  "weather_json w = JObj [(ascii ''live'', w_live w), (ascii ''forecasts'', JArr (w_forecasts w))]"

text \<open>One image result of the web search: its \<open>image\<close> and \<open>thumbnail\<close> entries.\<close>

record ddgs_result =
  res_image :: "pystr option"
  res_thumbnail :: "pystr option"

section \<open>The outside world\<close>

text \<open>
  Every outbound call and every logged tier entry is recorded, in order. The answer of a
  collaborator may depend on all that happened before, so each collaborator is a function
  of the record so far and of its arguments; it answers with a value or raises.
\<close>

datatype call =
    ChatCompletion "(pystr \<times> pystr) list"
  | Weather pystr
  | Geocode pystr
  | TextSearch json pystr
  | AroundSearch pystr json nat
  | RouteWalking json json
  | RouteDriving json json
  | RouteBicycling json json
  | RouteTransit json json pystr
  | GenerateRouteMap "poi list" pystr
  | DownloadStaticMap pystr
  | UnsplashGet pystr
  | AmapStaticImage pystr
  | DdgsImages pystr nat
  | HttpHead pystr

text \<open>
  The environment: the standard-library functions whose exact results no claim depends
  on (\<open>json.loads\<close>, \<open>json.dumps\<close>, \<open>str()\<close> of a non-string, \<open>str.lower\<close>,
  \<open>urlencode\<close>, \<open>random.choice\<close>, \<open>uuid4\<close>, \<open>datetime.now\<close>), the fixed prose of the
  prompt templates by segment number, the two settings read by the image resolver, and
  the collaborators (chat provider, map provider, premium image API, web search, HTTP).
\<close>

record env =
  json_loads :: "pystr \<Rightarrow> pyerr + json"
  json_dumps :: "json \<Rightarrow> pyerr + pystr"
  py_repr :: "json \<Rightarrow> pystr"
  str_lower :: "pystr \<Rightarrow> pystr"
  urlencode :: "(pystr \<times> pystr) list \<Rightarrow> pystr"
  prose :: "nat \<Rightarrow> pystr"
  random_index :: "call list \<Rightarrow> nat \<Rightarrow> nat"
  uuid4 :: "call list \<Rightarrow> pystr"
  now_isoformat :: "call list \<Rightarrow> pystr"
  unsplash_access_key :: pystr
  amap_web_key :: pystr
  chat_create :: "call list \<Rightarrow> (pystr \<times> pystr) list \<Rightarrow> pyerr + pystr option"
  amap_get_weather :: "call list \<Rightarrow> pystr \<Rightarrow> pyerr + weather"
  amap_geocode :: "call list \<Rightarrow> pystr \<Rightarrow> pyerr + json"
  amap_text_search :: "call list \<Rightarrow> json \<Rightarrow> pystr \<Rightarrow> pyerr + poi list"
  amap_around_search :: "call list \<Rightarrow> pystr \<Rightarrow> json \<Rightarrow> nat \<Rightarrow> pyerr + poi list"
  amap_route_walking :: "call list \<Rightarrow> json \<Rightarrow> json \<Rightarrow> pyerr + (pystr \<times> json) list"
  amap_route_driving :: "call list \<Rightarrow> json \<Rightarrow> json \<Rightarrow> pyerr + (pystr \<times> json) list"
  amap_route_bicycling :: "call list \<Rightarrow> json \<Rightarrow> json \<Rightarrow> pyerr + (pystr \<times> json) list"
  amap_route_transit :: "call list \<Rightarrow> json \<Rightarrow> json \<Rightarrow> pystr \<Rightarrow> pyerr + (pystr \<times> json) list"
  amap_generate_route_map :: "call list \<Rightarrow> poi list \<Rightarrow> pystr \<Rightarrow> pyerr + pystr"
  amap_download_static_map :: "call list \<Rightarrow> pystr \<Rightarrow> pyerr + pystr \<times> pystr"
  unsplash_get :: "call list \<Rightarrow> pystr \<Rightarrow> pyerr + nat \<times> pystr list"
  ddgs_images :: "call list \<Rightarrow> pystr \<Rightarrow> nat \<Rightarrow> pyerr + ddgs_result list"
  http_head :: "call list \<Rightarrow> pystr \<Rightarrow> pyerr + nat \<times> pystr"

text \<open>\<open>str(v)\<close> inside an f-string: a string is itself.\<close>

definition py_str :: "env \<Rightarrow> json \<Rightarrow> pystr" where
  "py_str e v = (case v of JStr s \<Rightarrow> s | _ \<Rightarrow> py_repr e v)"

text \<open>
  An environment in which every collaborator is unreachable and nothing is configured;
  the concrete examples below change the fields they need.
\<close>

definition offline :: env where
  "offline = \<lparr>
     json_loads = (\<lambda>_. Inl JSONDecodeError),
     json_dumps = (\<lambda>_. Inr []),
     py_repr = (\<lambda>_. []),
     str_lower = (\<lambda>s. s),
     urlencode = (\<lambda>_. []),
     prose = (\<lambda>_. []),
     random_index = (\<lambda>_ _. 0),
     uuid4 = (\<lambda>_. []),
     now_isoformat = (\<lambda>_. []),
     unsplash_access_key = [],
     amap_web_key = [],
     chat_create = (\<lambda>_ _. Inl ProviderError),
     amap_get_weather = (\<lambda>_ _. Inl ProviderError),
     amap_geocode = (\<lambda>_ _. Inl ProviderError),
     amap_text_search = (\<lambda>_ _ _. Inl ProviderError),
     amap_around_search = (\<lambda>_ _ _ _. Inl ProviderError),
     amap_route_walking = (\<lambda>_ _ _. Inl ProviderError),
     amap_route_driving = (\<lambda>_ _ _. Inl ProviderError),
     amap_route_bicycling = (\<lambda>_ _ _. Inl ProviderError),
     amap_route_transit = (\<lambda>_ _ _ _. Inl ProviderError),
     amap_generate_route_map = (\<lambda>_ _ _. Inl ProviderError),
     amap_download_static_map = (\<lambda>_ _. Inl ProviderError),
     unsplash_get = (\<lambda>_ _. Inl ProviderError),
     ddgs_images = (\<lambda>_ _ _. Inl ProviderError),
     http_head = (\<lambda>_ _. Inl ProviderError)\<rparr>"


section \<open>ContextGatherer: merging the attraction lists\<close>

text \<open>
  \<open>TripPlanner._gather_context_with_intent\<close>, lines 276-285:
  \<^verbatim>\<open>
  all_attractions = specific_attractions + general_attractions
  seen_names = set()
  unique_attractions = []
  for attr in all_attractions:
      if attr['name'] not in seen_names:
          seen_names.add(attr['name'])
          unique_attractions.append(attr)
  context["attractions"] = unique_attractions[:15]
  \<close>
  The loop is \<open>dedup_loop\<close>, with the two mutable variables as arguments.
\<close>

fun dedup_loop :: "poi list \<Rightarrow> pystr set \<Rightarrow> poi list \<Rightarrow> poi list" where
  "dedup_loop [] seen_names unique = unique"
| "dedup_loop (attr # rest) seen_names unique =
     (if poi_name attr \<notin> seen_names
      then dedup_loop rest (insert (poi_name attr) seen_names) (unique @ [attr])
      else dedup_loop rest seen_names unique)"

definition unique_attractions :: "poi list \<Rightarrow> poi list \<Rightarrow> poi list" where
  "unique_attractions specific general = dedup_loop (specific @ general) {} []"

definition merge_attractions :: "poi list \<Rightarrow> poi list \<Rightarrow> poi list" where
  "merge_attractions specific general = take 15 (unique_attractions specific general)"

text \<open>The number of entries of a list that carry a given name.\<close>

definition name_count :: "pystr \<Rightarrow> poi list \<Rightarrow> nat" where
  "name_count n ps = length (filter (\<lambda>p. poi_name p = n) ps)"

text \<open>A result with the given one-character name and empty other fields.\<close>

definition named_poi :: "nat \<Rightarrow> poi" where
  "named_poi c = \<lparr>poi_id = [], poi_name = [c], poi_address = [], poi_location = [],
     poi_type = [], poi_tel = [], poi_rating = JNull, poi_cost = JNull\<rparr>"

text \<open>What the loop appends to its accumulator: the first occurrences of the names not
  yet seen.\<close>

fun firsts :: "pystr set \<Rightarrow> poi list \<Rightarrow> poi list" where
  "firsts seen [] = []"
| "firsts seen (p # ps) =
     (if poi_name p \<in> seen then firsts seen ps
      else p # firsts (insert (poi_name p) seen) ps)"

section \<open>ResponseParser\<close>














section \<open>The chat provider\<close>


section \<open>IntentExtractor\<close>


text \<open>The default intent returned after the \<open>except\<close> clause.\<close>

definition default_intent :: "plan_request \<Rightarrow> json" where
  "default_intent request = JObj
     [(ascii ''specific_places'', JArr []),
      (ascii ''must_eat'', JArr []),
      (ascii ''travel_style'', JStr [32508, 21512, 20307, 39564]),
      (ascii ''special_needs'', JArr []),
      (ascii ''budget_sensitivity'', JStr [20013]),
      (ascii ''photo_spots_needed'', JBool True),
      (ascii ''local_experience'', JBool True),
      (ascii ''avoid_crowds'', JBool False),
      (ascii ''food_priority'', JStr [20013]),
      (ascii ''suggested_areas'', JArr [JStr (req_destination request)]),
      (ascii ''search_keywords'',
         JArr [JStr (req_destination request @ [24517, 21435, 26223, 28857]),
               JStr (req_destination request @ [32593, 32418, 25171, 21345])])]"



text \<open>
  A structurally valid intent: a dict with the eleven keys of the prompt's schema, the
  list-valued ones holding lists of strings, the flags booleans, the others strings.
\<close>

definition is_str :: "json \<Rightarrow> bool" where
  "is_str v = (case v of JStr s \<Rightarrow> True | _ \<Rightarrow> False)"


definition is_str_list :: "json \<Rightarrow> bool" where
  "is_str_list v = (case v of JArr xs \<Rightarrow> list_all is_str xs | _ \<Rightarrow> False)"



text \<open>Examples: a request, and a chat provider that answers every message with the
  fenced block \<^verbatim>\<open>```json{}```\<close>.\<close>

definition sample_request :: plan_request where
  "sample_request = \<lparr>req_destination = [26477, 24030], req_days = 2,
     req_preferences = [[32654, 39135]], req_description = None, req_budget = None,
     req_budget_level = None, req_travel_with = None, req_start_date = None,
     req_transport_mode = TRANSIT\<rparr>"


section \<open>Stored plans and their share codes\<close>

text \<open>
  The \<open>plans\<close> table of \<open>DuckDBService\<close>: \<open>id\<close> is the primary key, \<open>share_code\<close>
  is \<open>UNIQUE\<close> (and may be \<open>NULL\<close>), \<open>user_id\<close> references the \<open>users\<close> table. The two
  JSON columns are modelled by the values they encode, timestamps by a clock reading.
\<close>

record plan_row =
  row_id :: pystr
  row_user_id :: pystr
  row_destination :: pystr
  row_days :: int
  row_preferences :: "pystr list"
  row_description :: "pystr option"
  row_content :: pystr
  row_plan_data :: "json option"
  row_is_public :: bool
  row_share_code :: "pystr option"
  row_view_count :: int
  row_created_at :: nat
  row_updated_at :: nat
  row_cover_url :: "pystr option"
  row_start_date :: "pystr option"
  row_end_date :: "pystr option"

record db =
  db_users :: "pystr list"
  db_plans :: "plan_row list"

datatype db_error = ConstraintError

definition get_plan_by_id :: "db \<Rightarrow> pystr \<Rightarrow> plan_row option" where
  "get_plan_by_id d plan_id = find (\<lambda>r. row_id r = plan_id) (db_plans d)"

text \<open>\<^verbatim>\<open>return result and result[0] is not None\<close>\<close>

definition has_share_code :: "db \<Rightarrow> pystr \<Rightarrow> bool" where
  "has_share_code d plan_id =
     (case get_plan_by_id d plan_id of
        None \<Rightarrow> False
      | Some r \<Rightarrow> row_share_code r \<noteq> None)"

text \<open>\<open>INSERT\<close> under the constraints of the table.\<close>

definition insert_plan :: "db \<Rightarrow> plan_row \<Rightarrow> db_error + db" where
  "insert_plan d r =
     (if row_id r \<in> set (map row_id (db_plans d)) then Inl ConstraintError
      else if row_user_id r \<notin> set (db_users d) then Inl ConstraintError
      else if row_share_code r \<noteq> None
              \<and> row_share_code r \<in> set (map row_share_code (db_plans d))
           then Inl ConstraintError
      else Inr (d\<lparr>db_plans := db_plans d @ [r]\<rparr>))"

text \<open>
  \<open>DuckDBService.create_plan\<close>. \<open>new_uuid\<close> is the value of
  \<open>str(uuid.uuid4())[:8]\<close>, \<open>new_token\<close> the value \<open>secrets.token_urlsafe(6)\<close> returns
  if it is called, \<open>now\<close> the clock; \<open>new_row\<close> is the inserted row.
  \<^verbatim>\<open>
  plan_id = str(uuid.uuid4())[:8]
  share_code = secrets.token_urlsafe(6) if is_public else None
  now = datetime.now()
  self.conn.execute("INSERT INTO plans (...) VALUES (...)", [...])
  return self.get_plan_by_id(plan_id)
  \<close>
\<close>

record create_args =
  c_user_id :: pystr
  c_destination :: pystr
  c_days :: int
  c_content :: pystr
  c_preferences :: "pystr list option"
  c_description :: "pystr option"
  c_plan_data :: "json option"
  c_is_public :: bool
  c_cover_url :: "pystr option"
  c_start_date :: "pystr option"
  c_end_date :: "pystr option"

definition new_row :: "pystr \<Rightarrow> pystr \<Rightarrow> nat \<Rightarrow> create_args \<Rightarrow> plan_row" where
  "new_row plan_id new_token now a =
     \<lparr>row_id = plan_id, row_user_id = c_user_id a,
      row_destination = c_destination a, row_days = c_days a,
      row_preferences = (case c_preferences a of None \<Rightarrow> [] | Some ps \<Rightarrow> ps),
      row_description = c_description a, row_content = c_content a,
      row_plan_data = (case c_plan_data a of
           None \<Rightarrow> None
         | Some v \<Rightarrow> if truthy v then Some v else None),
      row_is_public = c_is_public a,
      row_share_code = (if c_is_public a then Some new_token else None),
      row_view_count = 0, row_created_at = now, row_updated_at = now,
      row_cover_url = c_cover_url a, row_start_date = c_start_date a,
      row_end_date = c_end_date a\<rparr>"

definition db_create_plan ::
  "db \<Rightarrow> pystr \<Rightarrow> pystr \<Rightarrow> nat \<Rightarrow> create_args \<Rightarrow> (db_error + plan_row option) \<times> db" where
  "db_create_plan d new_uuid new_token now a =
     (case insert_plan d (new_row new_uuid new_token now a) of
        Inl err \<Rightarrow> (Inl err, d)
      | Inr d' \<Rightarrow> (Inr (get_plan_by_id d' new_uuid), d'))"

text \<open>
  \<open>DuckDBService.update_plan\<close>. The keyword arguments the callers pass are the seven
  allowed fields; \<open>None\<close> means not given.
  \<^verbatim>\<open>
  for k, v in kwargs.items():
      if k in allowed_fields and v is not None: updates[k] = ...
  if not updates:
      return self.get_plan_by_id(plan_id)
  if kwargs.get('is_public') and not self._has_share_code(plan_id):
      updates['share_code'] = secrets.token_urlsafe(6)
  self.conn.execute("UPDATE plans SET ..., updated_at = ? WHERE id = ? AND user_id = ?", ...)
  return self.get_plan_by_id(plan_id)
  \<close>
\<close>

record plan_updates =
  u_destination :: "pystr option"
  u_days :: "int option"
  u_preferences :: "pystr list option"
  u_description :: "pystr option"
  u_content :: "pystr option"
  u_plan_data :: "json option"
  u_is_public :: "bool option"

definition no_updates :: "plan_updates \<Rightarrow> bool" where
  "no_updates k \<longleftrightarrow> u_destination k = None \<and> u_days k = None \<and> u_preferences k = None
     \<and> u_description k = None \<and> u_content k = None \<and> u_plan_data k = None
     \<and> u_is_public k = None"

definition apply_updates :: "plan_updates \<Rightarrow> pystr option \<Rightarrow> nat \<Rightarrow> plan_row \<Rightarrow> plan_row" where
  "apply_updates k new_code now r = r\<lparr>
     row_destination := (case u_destination k of None \<Rightarrow> row_destination r | Some v \<Rightarrow> v),
     row_days := (case u_days k of None \<Rightarrow> row_days r | Some v \<Rightarrow> v),
     row_preferences := (case u_preferences k of None \<Rightarrow> row_preferences r | Some v \<Rightarrow> v),
     row_description := (case u_description k of None \<Rightarrow> row_description r | Some v \<Rightarrow> Some v),
     row_content := (case u_content k of None \<Rightarrow> row_content r | Some v \<Rightarrow> v),
     row_plan_data := (case u_plan_data k of None \<Rightarrow> row_plan_data r | Some v \<Rightarrow> Some v),
     row_is_public := (case u_is_public k of None \<Rightarrow> row_is_public r | Some v \<Rightarrow> v),
     row_share_code := (case new_code of None \<Rightarrow> row_share_code r | Some c \<Rightarrow> Some c),
     row_updated_at := now\<rparr>"

definition db_update_plan ::
  "db \<Rightarrow> pystr \<Rightarrow> nat \<Rightarrow> pystr \<Rightarrow> pystr \<Rightarrow> plan_updates
     \<Rightarrow> (db_error + plan_row option) \<times> db" where
  "db_update_plan d new_token now plan_id user_id k =
     (if no_updates k then (Inr (get_plan_by_id d plan_id), d)
      else
        let new_code = (if u_is_public k = Some True \<and> \<not> has_share_code d plan_id
                        then Some new_token else None);
            hit = (\<lambda>r. row_id r = plan_id \<and> row_user_id r = user_id)
        in if new_code \<noteq> None \<and> filter hit (db_plans d) \<noteq> []
              \<and> new_code \<in> set (map row_share_code (filter (\<lambda>r. \<not> hit r) (db_plans d)))
           then (Inl ConstraintError, d)
           else
             let d' = d\<lparr>db_plans :=
                        map (\<lambda>r. if hit r then apply_updates k new_code now r else r)
                          (db_plans d)\<rparr>
             in (Inr (get_plan_by_id d' plan_id), d'))"

text \<open>The toggle of \<open>routers/plans.toggle_share\<close>: only \<open>is_public\<close> is given.\<close>

definition set_public :: "bool \<Rightarrow> plan_updates" where
  "set_public b = \<lparr>u_destination = None, u_days = None, u_preferences = None,
     u_description = None, u_content = None, u_plan_data = None, u_is_public = Some b\<rparr>"

text \<open>The primary key holds.\<close>

definition wf_db :: "db \<Rightarrow> bool" where
  "wf_db d \<longleftrightarrow> distinct (map row_id (db_plans d))"

text \<open>Examples: a database with one user, and arguments for a private and a public plan.\<close>

definition one_user_db :: db where
  "one_user_db = \<lparr>db_users = [ascii ''u1''], db_plans = []\<rparr>"

definition sample_args :: "bool \<Rightarrow> create_args" where
  "sample_args public = \<lparr>c_user_id = ascii ''u1'', c_destination = [26477, 24030],
     c_days = 2, c_content = ascii ''text'', c_preferences = None, c_description = None,
     c_plan_data = None, c_is_public = public, c_cover_url = None, c_start_date = None,
     c_end_date = None\<rparr>"

definition private_row :: plan_row where
  "private_row = \<lparr>row_id = ascii ''p1'', row_user_id = ascii ''u1'',
     row_destination = [26477, 24030], row_days = 2, row_preferences = [],
     row_description = None, row_content = ascii ''text'', row_plan_data = None,
     row_is_public = False, row_share_code = None, row_view_count = 0,
     row_created_at = 0, row_updated_at = 0, row_cover_url = None, row_start_date = None,
     row_end_date = None\<rparr>"

definition private_db :: db where
  "private_db = \<lparr>db_users = [ascii ''u1''], db_plans = [private_row]\<rparr>"

section \<open>ImageResolver\<close>

text \<open>
  \<open>SearchService.search_unsplash_image\<close>: without an access key no request is made.
  The collaborator answers with the status and the \<open>regular\<close> URLs of the results; any
  exception is caught and gives \<open>None\<close>.
\<close>

definition image_query :: "pystr \<Rightarrow> pystr" where
  "image_query destination = destination @ ascii '' travel scenery landscape''"

definition search_unsplash_image :: "env \<Rightarrow> pystr \<Rightarrow> call list \<Rightarrow> pystr option \<times> call list" where
  "search_unsplash_image e destination trace =
     (if unsplash_access_key e = [] then (None, trace)
      else
        ((case unsplash_get e trace (image_query destination) of
            Inl err \<Rightarrow> None
          | Inr (status, urls) \<Rightarrow>
              if status = 200 then (case urls of [] \<Rightarrow> None | u # us \<Rightarrow> Some u) else None),
         trace @ [UnsplashGet (image_query destination)]))"

text \<open>
  \<open>SearchService.get_amap_static_image\<close>: at most five markers, each read with
  \<open>m.get('lng', '')\<close> and \<open>m.get('lat', '')\<close>; the URL is logged when it has been built.
\<close>

definition marker_coordinate :: "env \<Rightarrow> json \<Rightarrow> pyerr + pystr" where
  "marker_coordinate e m =
     (case py_get m (ascii ''lng'') (JStr []) of
        Inl err \<Rightarrow> Inl err
      | Inr lng \<Rightarrow>
          (case py_get m (ascii ''lat'') (JStr []) of
             Inl err \<Rightarrow> Inl err
           | Inr lat \<Rightarrow> Inr (py_str e lng @ ascii '','' @ py_str e lat)))"

fun marker_coordinates :: "env \<Rightarrow> json list \<Rightarrow> pyerr + pystr list" where
  "marker_coordinates e [] = Inr []"
| "marker_coordinates e (m # ms) =
     (case marker_coordinate e m of
        Inl err \<Rightarrow> Inl err
      | Inr c \<Rightarrow>
          (case marker_coordinates e ms of
             Inl err \<Rightarrow> Inl err
           | Inr cs \<Rightarrow> Inr (c # cs)))"

definition static_map_params ::
  "env \<Rightarrow> pystr \<Rightarrow> json list option \<Rightarrow> int \<Rightarrow> pyerr + (pystr \<times> pystr) list" where
  "static_map_params e location markers zoom =
     (let params = [(ascii ''location'', location), (ascii ''zoom'', str_int zoom),
                    (ascii ''size'', ascii ''750*500''), (ascii ''scale'', ascii ''2''),
                    (ascii ''key'', amap_web_key e)]
      in case markers of
           None \<Rightarrow> Inr params
         | Some ms \<Rightarrow>
             if ms = [] then Inr params
             else (case marker_coordinates e (take 5 ms) of
                     Inl err \<Rightarrow> Inl err
                   | Inr cs \<Rightarrow>
                       Inr (params @ [(ascii ''markers'',
                              ascii ''mid,0x2CB67D,A:'' @ str_join (ascii ''|'') cs)])))"

definition get_amap_static_image ::
  "env \<Rightarrow> pystr \<Rightarrow> json list option \<Rightarrow> int \<Rightarrow> call list \<Rightarrow> (pyerr + pystr) \<times> call list" where
  "get_amap_static_image e location markers zoom trace =
     (case static_map_params e location markers zoom of
        Inl err \<Rightarrow> (Inl err, trace)
      | Inr params \<Rightarrow>
          (Inr (ascii ''https://restapi.amap.com/v3/staticmap'' @ ascii ''?'' @ urlencode e params),
           trace @ [AmapStaticImage location]))"

text \<open>\<open>SearchService.search_web\<close> for images: an exception of the search gives \<open>[]\<close>.\<close>

definition search_web_images :: "env \<Rightarrow> pystr \<Rightarrow> nat \<Rightarrow> call list \<Rightarrow> ddgs_result list \<times> call list" where
  "search_web_images e query max_results trace =
     ((case ddgs_images e trace query max_results of Inl err \<Rightarrow> [] | Inr rs \<Rightarrow> rs),
      trace @ [DdgsImages query max_results])"

text \<open>The filter of the web-search tier (lines 332-388).\<close>

definition invalid_domains :: "pystr list" where
  "invalid_domains = map ascii
     [''mmbiz.qpic.cn'', ''kuaizhan.com'', ''qpic.cn'', ''sinaimg.cn'',
      ''dmjnb.com'', ''bdimg.com'', ''baidustatic.com'', ''sogoucdn.com'',
      ''360buyimg.com'', ''alicdn.com'', ''ctrip.com'', ''mafengwo.net'',
      ''duitang.com'', ''huaban.com'', ''nipic.com'', ''58pic.com'', ''zcool.cn'']"

definition valid_patterns :: "pystr list" where
  "valid_patterns = map ascii
     [''.jpg'', ''.jpeg'', ''.png'', ''.webp'', ''.gif'',
      ''unsplash.com'', ''pexels.com'', ''pixabay.com'',
      ''cloudfront.net'', ''amazonaws.com'',
      ''googleusercontent.com'', ''flickr.com'', ''staticflickr.com'',
      ''wikimedia.org'', ''wikipedia.org'']"

definition is_https :: "pystr \<Rightarrow> bool" where
  "is_https url = prefix (ascii ''https://'') url"

definition is_blacklisted :: "pystr \<Rightarrow> bool" where
  "is_blacklisted url = list_ex (\<lambda>domain. sublist domain url) invalid_domains"

definition is_allowlisted :: "env \<Rightarrow> pystr \<Rightarrow> bool" where
  "is_allowlisted e url = list_ex (\<lambda>pattern. sublist pattern (str_lower e url)) valid_patterns"

text \<open>\<^verbatim>\<open>image_url = result.get("image") or result.get("thumbnail")\<close>\<close>

definition image_or_thumbnail :: "ddgs_result \<Rightarrow> pystr option" where
  "image_or_thumbnail r =
     (case res_image r of
        None \<Rightarrow> res_thumbnail r
      | Some u \<Rightarrow> if u = [] then res_thumbnail r else Some u)"

fun collect_valid :: "env \<Rightarrow> ddgs_result list \<Rightarrow> pystr list \<Rightarrow> pystr list" where
  "collect_valid e [] valid_images = valid_images"
| "collect_valid e (r # rs) valid_images =
     (case image_or_thumbnail r of
        None \<Rightarrow> collect_valid e rs valid_images
      | Some image_url \<Rightarrow>
          if image_url = [] then collect_valid e rs valid_images
          else if \<not> is_https image_url then collect_valid e rs valid_images
          else if is_blacklisted image_url then collect_valid e rs valid_images
          else if \<not> is_allowlisted e image_url then collect_valid e rs valid_images
          else if length (valid_images @ [image_url]) \<ge> 5 then valid_images @ [image_url]
          else collect_valid e rs (valid_images @ [image_url]))"

text \<open>
  \<open>SearchService._verify_image_accessible\<close>: a \<open>HEAD\<close> request; the collaborator answers
  with the status and the \<open>content-type\<close> header (empty if absent).
  \<^verbatim>\<open>
  if response.status_code != 200: return False
  content_type = response.headers.get("content-type", "")
  if not any(t in content_type.lower() for t in ["image/", "octet-stream"]): return False
  return True
  \<close>
\<close>

definition verify_image_accessible :: "env \<Rightarrow> pystr \<Rightarrow> call list \<Rightarrow> bool \<times> call list" where
  "verify_image_accessible e url trace =
     ((case http_head e trace url of
         Inl err \<Rightarrow> False
       | Inr (status, content_type) \<Rightarrow>
           if status \<noteq> 200 then False
           else if \<not> list_ex (\<lambda>t. sublist t (str_lower e content_type))
                       [ascii ''image/'', ascii ''octet-stream'']
           then False
           else True),
      trace @ [HttpHead url])"

fun verify_first :: "env \<Rightarrow> pystr list \<Rightarrow> call list \<Rightarrow> pystr option \<times> call list" where
  "verify_first e [] trace = (None, trace)"
| "verify_first e (image_url # rest) trace =
     (if fst (verify_image_accessible e image_url trace)
      then (Some image_url, snd (verify_image_accessible e image_url trace))
      else verify_first e rest (snd (verify_image_accessible e image_url trace)))"

definition web_image_search :: "env \<Rightarrow> pystr \<Rightarrow> call list \<Rightarrow> pystr option \<times> call list" where
  "web_image_search e destination trace =
     (case search_web_images e (image_query destination) 20 trace of
        (results, trace') \<Rightarrow>
          (let valid_images = collect_valid e results []
           in if valid_images = [] then (None, trace')
              else verify_first e valid_images trace'))"

text \<open>
  \<open>SearchService.search_destination_image\<close>: the three tiers in order. A static-map URL
  is built only with a non-empty \<open>location\<close> and a configured map key; if building it
  raises, the exception is caught and the web search is tried. \<open>static_map_or_web\<close> is
  the part after the premium tier.
\<close>

definition static_map_or_web ::
  "env \<Rightarrow> pystr \<Rightarrow> pystr option \<Rightarrow> json list option \<Rightarrow> call list
     \<Rightarrow> pystr option \<times> call list" where
  "static_map_or_web e destination location markers trace =
     (case location of
        None \<Rightarrow> web_image_search e destination trace
      | Some l \<Rightarrow>
          if l \<noteq> [] \<and> amap_web_key e \<noteq> []
          then (case get_amap_static_image e l markers 12 trace of
                  (Inr amap_url, trace') \<Rightarrow> (Some amap_url, trace')
                | (Inl err, trace') \<Rightarrow> web_image_search e destination trace')
          else web_image_search e destination trace)"

definition search_destination_image ::
  "env \<Rightarrow> pystr \<Rightarrow> pystr option \<Rightarrow> json list option \<Rightarrow> call list
     \<Rightarrow> pystr option \<times> call list" where
  "search_destination_image e destination location markers trace =
     (case search_unsplash_image e destination trace of
        (None, trace') \<Rightarrow> static_map_or_web e destination location markers trace'
      | (Some unsplash_url, trace') \<Rightarrow>
          if unsplash_url \<noteq> [] then (Some unsplash_url, trace')
          else static_map_or_web e destination location markers trace')"

text \<open>Every candidate of the list, probed in order from the given record on, fails.\<close>

fun all_fail :: "env \<Rightarrow> pystr list \<Rightarrow> call list \<Rightarrow> bool" where
  "all_fail e [] trace = True"
| "all_fail e (u # us) trace =
     (\<not> fst (verify_image_accessible e u trace) \<and> all_fail e us (trace @ [HttpHead u]))"

text \<open>A marker as the parameter declares it (\<open>List[Dict]\<close>): a dict.\<close>

definition is_dict :: "json \<Rightarrow> bool" where
  "is_dict v = (case v of JObj kvs \<Rightarrow> True | _ \<Rightarrow> False)"

text \<open>A URL that passes the three checks of the filter, and the URLs of the results that
  pass them, in the order of the results.\<close>

definition survives :: "env \<Rightarrow> pystr \<Rightarrow> bool" where
  "survives e url \<longleftrightarrow> url \<noteq> [] \<and> is_https url \<and> \<not> is_blacklisted url \<and> is_allowlisted e url"

definition surviving_urls :: "env \<Rightarrow> ddgs_result list \<Rightarrow> pystr list" where
  "surviving_urls e results =
     List.map_filter
       (\<lambda>r. case image_or_thumbnail r of
              None \<Rightarrow> None
            | Some url \<Rightarrow> if survives e url then Some url else None)
       results"

text \<open>Examples: a premium API that answers, a map key with the premium API unconfigured,
  and a web search with one candidate whose probe answers with an image type or with
  \<open>application/octet-stream\<close>.\<close>

definition premium_env :: env where
  "premium_env = offline\<lparr>
     unsplash_access_key := ascii ''key'',
     unsplash_get := (\<lambda>_ _. Inr (200, [ascii ''https://images.unsplash.com/p1'']))\<rparr>"

definition map_key_env :: env where
  "map_key_env = offline\<lparr>amap_web_key := ascii ''key''\<rparr>"

definition one_candidate :: "ddgs_result list" where
  "one_candidate = [\<lparr>res_image = Some (ascii ''https://a.io/b.jpg''), res_thumbnail = None\<rparr>]"

definition jpeg_env :: env where
  "jpeg_env = offline\<lparr>
     ddgs_images := (\<lambda>_ _ _. Inr one_candidate),
     http_head := (\<lambda>_ _. Inr (200, ascii ''image/jpeg''))\<rparr>"

definition octet_env :: env where
  "octet_env = offline\<lparr>
     ddgs_images := (\<lambda>_ _ _. Inr one_candidate),
     http_head := (\<lambda>_ _. Inr (200, ascii ''application/octet-stream''))\<rparr>"

section \<open>PlanEnricher\<close>

text \<open>Dict operations on a decoded object: \<open>d.get(k)\<close>, \<open>d[k] = v\<close> (an existing key
  keeps its place, a new one goes last) and the literal \<open>{..., **extra}\<close>.\<close>

definition dict_get :: "(pystr \<times> json) list \<Rightarrow> pystr \<Rightarrow> json" where
  "dict_get kvs k = (case map_of kvs k of Some v \<Rightarrow> v | None \<Rightarrow> JNull)"

definition dict_merge :: "(pystr \<times> json) list \<Rightarrow> (pystr \<times> json) list \<Rightarrow> (pystr \<times> json) list" where
  "dict_merge base extra = foldl (\<lambda>d kv. AList.update (fst kv) (snd kv) d) base extra"

text \<open>
  A list held under a key is mutated in place, so the dict sees the new elements; a
  default \<open>[]\<close> of \<open>get\<close> (or an empty string or dict, the only other values the loops
  pass over without raising) is not stored.
\<close>

definition store_back :: "(pystr \<times> json) list \<Rightarrow> pystr \<Rightarrow> json list \<Rightarrow> (pystr \<times> json) list" where
  "store_back kvs k elems =
     (case map_of kvs k of
        Some (JArr old) \<Rightarrow> AList.update k (JArr elems) kvs
      | _ \<Rightarrow> kvs)"

text \<open>
  \<^verbatim>\<open>
  if not poi.get("location"):
      try:
          results = await amap_client.text_search(poi["name"], request.destination)
          if results:
              poi["location"] = results[0].get("location", "")
              poi["address"] = results[0].get("address", "")
              poi["id"] = results[0].get("id", "")
      except Exception:
          pass
  \<close>
\<close>

definition lookup_coordinates ::
  "env \<Rightarrow> plan_request \<Rightarrow> (pystr \<times> json) list \<Rightarrow> call list
     \<Rightarrow> (pystr \<times> json) list \<times> call list" where
  "lookup_coordinates e request poi trace =
     (case map_of poi (ascii ''name'') of
        None \<Rightarrow> (poi, trace)
      | Some name \<Rightarrow>
          ((case amap_text_search e trace name (req_destination request) of
              Inl err \<Rightarrow> poi
            | Inr [] \<Rightarrow> poi
            | Inr (r # rs) \<Rightarrow>
                AList.update (ascii ''id'') (JStr (poi_id r))
                  (AList.update (ascii ''address'') (JStr (poi_address r))
                    (AList.update (ascii ''location'') (JStr (poi_location r)) poi))),
           trace @ [TextSearch name (req_destination request)]))"

text \<open>
  \<^verbatim>\<open>
  if not poi.get("image_url"):
      try:
          image_url = await search_service.search_destination_image(
              f"{request.destination} {poi['name']}")
          if image_url:
              poi["image_url"] = image_url
      except Exception as e: ...
  \<close>
\<close>

definition lookup_image ::
  "env \<Rightarrow> plan_request \<Rightarrow> (pystr \<times> json) list \<Rightarrow> call list
     \<Rightarrow> (pystr \<times> json) list \<times> call list" where
  "lookup_image e request poi trace =
     (case map_of poi (ascii ''name'') of
        None \<Rightarrow> (poi, trace)
      | Some name \<Rightarrow>
          (case search_destination_image e
                  (req_destination request @ ascii '' '' @ py_str e name) None None trace of
             (None, trace') \<Rightarrow> (poi, trace')
           | (Some image_url, trace') \<Rightarrow>
               (if image_url \<noteq> [] then AList.update (ascii ''image_url'') (JStr image_url) poi
                else poi, trace')))"

text \<open>The body of the loop over the POIs of a day; \<open>poi.get\<close> raises on anything but a
  dict, outside of any \<open>try\<close>.\<close>

definition enrich_poi ::
  "env \<Rightarrow> plan_request \<Rightarrow> json \<Rightarrow> call list \<Rightarrow> (pyerr + (pystr \<times> json) list) \<times> call list" where
  "enrich_poi e request poi trace =
     (case poi of
        JObj kvs \<Rightarrow>
          (case (if \<not> truthy (dict_get kvs (ascii ''location''))
                 then lookup_coordinates e request kvs trace else (kvs, trace)) of
             (kvs1, trace1) \<Rightarrow>
               (case (if \<not> truthy (dict_get kvs1 (ascii ''image_url''))
                      then lookup_image e request kvs1 trace1 else (kvs1, trace1)) of
                  (kvs2, trace2) \<Rightarrow> (Inr kvs2, trace2)))
      | _ \<Rightarrow> (Inl AttributeError, trace))"

fun enrich_pois ::
  "env \<Rightarrow> plan_request \<Rightarrow> json list \<Rightarrow> call list
     \<Rightarrow> (pyerr + (pystr \<times> json) list list) \<times> call list" where
  "enrich_pois e request [] trace = (Inr [], trace)"
| "enrich_pois e request (poi # rest) trace =
     (case enrich_poi e request poi trace of
        (Inl err, trace1) \<Rightarrow> (Inl err, trace1)
      | (Inr poi', trace1) \<Rightarrow>
          (case enrich_pois e request rest trace1 of
             (Inl err, trace2) \<Rightarrow> (Inl err, trace2)
           | (Inr rest', trace2) \<Rightarrow> (Inr (poi' # rest'), trace2)))"

text \<open>\<open>TripPlanner._calculate_route\<close>.\<close>

definition calculate_route ::
  "env \<Rightarrow> json \<Rightarrow> json \<Rightarrow> transport \<Rightarrow> pystr \<Rightarrow> call list
     \<Rightarrow> (pyerr + (pystr \<times> json) list) \<times> call list" where
  "calculate_route e origin dest mode city trace =
     (case mode of
        WALKING \<Rightarrow> (amap_route_walking e trace origin dest, trace @ [RouteWalking origin dest])
      | DRIVING \<Rightarrow> (amap_route_driving e trace origin dest, trace @ [RouteDriving origin dest])
      | BICYCLING \<Rightarrow>
          (amap_route_bicycling e trace origin dest, trace @ [RouteBicycling origin dest])
      | TRANSIT \<Rightarrow>
          (amap_route_transit e trace origin dest city, trace @ [RouteTransit origin dest city]))"

text \<open>
  \<^verbatim>\<open>
  if pois[i].get("location") and pois[i+1].get("location"):
      try:
          route = await self._calculate_route(pois[i]["location"], pois[i+1]["location"],
                                              request.transport_mode, request.destination)
          routes.append({"origin": pois[i]["name"], "destination": pois[i+1]["name"],
                         "mode": request.transport_mode.value, **route})
      except Exception:
          pass
  \<close>
  The result is the list of routes appended (none or one).
\<close>

definition route_between ::
  "env \<Rightarrow> plan_request \<Rightarrow> (pystr \<times> json) list \<Rightarrow> (pystr \<times> json) list \<Rightarrow> call list
     \<Rightarrow> json list \<times> call list" where
  "route_between e request p q trace =
     (if truthy (dict_get p (ascii ''location'')) \<and> truthy (dict_get q (ascii ''location''))
      then
        (case calculate_route e (dict_get p (ascii ''location'')) (dict_get q (ascii ''location''))
                (req_transport_mode request) (req_destination request) trace of
           (Inl err, trace') \<Rightarrow> ([], trace')
         | (Inr route, trace') \<Rightarrow>
             (case map_of p (ascii ''name'') of
                None \<Rightarrow> ([], trace')
              | Some origin \<Rightarrow>
                  (case map_of q (ascii ''name'') of
                     None \<Rightarrow> ([], trace')
                   | Some dest \<Rightarrow>
                       ([JObj (dict_merge
                           [(ascii ''origin'', origin), (ascii ''destination'', dest),
                            (ascii ''mode'', JStr (transport_value (req_transport_mode request)))]
                           route)],
                        trace'))))
      else ([], trace))"

fun day_routes ::
  "env \<Rightarrow> plan_request \<Rightarrow> (pystr \<times> json) list list \<Rightarrow> call list \<Rightarrow> json list \<times> call list" where
  "day_routes e request (p # q # rest) trace =
     (case route_between e request p q trace of
        (r, trace1) \<Rightarrow>
          (case day_routes e request (q # rest) trace1 of
             (rs, trace2) \<Rightarrow> (r @ rs, trace2)))"
| "day_routes e request ps trace = ([], trace)"

text \<open>The body of the loop over the days.\<close>

definition enrich_day :: "env \<Rightarrow> plan_request \<Rightarrow> json \<Rightarrow> call list \<Rightarrow> (pyerr + json) \<times> call list" where
  "enrich_day e request day_plan trace =
     (case day_plan of
        JObj kvs \<Rightarrow>
          (case py_iter (case map_of kvs (ascii ''pois'') of Some v \<Rightarrow> v | None \<Rightarrow> JArr []) of
             Inl err \<Rightarrow> (Inl err, trace)
           | Inr pois \<Rightarrow>
               (case enrich_pois e request pois trace of
                  (Inl err, trace1) \<Rightarrow> (Inl err, trace1)
                | (Inr pois', trace1) \<Rightarrow>
                    (case day_routes e request pois' trace1 of
                       (routes, trace2) \<Rightarrow>
                         (Inr (JObj (AList.update (ascii ''routes'') (JArr routes)
                                  (store_back kvs (ascii ''pois'') (map JObj pois')))),
                          trace2))))
      | _ \<Rightarrow> (Inl AttributeError, trace))"

fun enrich_days :: "env \<Rightarrow> plan_request \<Rightarrow> json list \<Rightarrow> call list \<Rightarrow> (pyerr + json list) \<times> call list" where
  "enrich_days e request [] trace = (Inr [], trace)"
| "enrich_days e request (day_plan # rest) trace =
     (case enrich_day e request day_plan trace of
        (Inl err, trace1) \<Rightarrow> (Inl err, trace1)
      | (Inr day', trace1) \<Rightarrow>
          (case enrich_days e request rest trace1 of
             (Inl err, trace2) \<Rightarrow> (Inl err, trace2)
           | (Inr rest', trace2) \<Rightarrow> (Inr (day' # rest'), trace2)))"

text \<open>
  \<open>TripPlanner._enrich_plan\<close>:
  \<^verbatim>\<open>
  plan["id"] = str(uuid.uuid4())[:8]
  plan["created_at"] = datetime.now().isoformat()
  for day_plan in plan.get("daily_plans", []):
      pois = day_plan.get("pois", [])
      for poi in pois: ...
      routes = []
      for i in range(len(pois) - 1): ...
      day_plan["routes"] = routes
  return plan
  \<close>
\<close>

definition enrich_plan :: "env \<Rightarrow> plan_request \<Rightarrow> json \<Rightarrow> call list \<Rightarrow> (pyerr + json) \<times> call list" where
  "enrich_plan e request plan trace =
     (case plan of
        JObj kvs \<Rightarrow>
          (let kvs1 = AList.update (ascii ''id'') (JStr (take 8 (uuid4 e trace))) kvs;
               kvs2 = AList.update (ascii ''created_at'') (JStr (now_isoformat e trace)) kvs1
           in case py_iter (case map_of kvs2 (ascii ''daily_plans'') of
                              Some v \<Rightarrow> v | None \<Rightarrow> JArr []) of
                Inl err \<Rightarrow> (Inl err, trace)
              | Inr day_plans \<Rightarrow>
                  (case enrich_days e request day_plans trace of
                     (Inl err, trace') \<Rightarrow> (Inl err, trace')
                   | (Inr day_plans', trace') \<Rightarrow>
                       (Inr (JObj (store_back kvs2 (ascii ''daily_plans'') day_plans')), trace')))
      | _ \<Rightarrow> (Inl TypeError, trace))"

text \<open>
  A plan whose POIs are complete: the plan is a dict, its \<open>daily_plans\<close> (if any) a list
  of dicts, the \<open>pois\<close> of each day (if any) a list of dicts, and every POI has a
  non-empty \<open>location\<close> and a non-empty \<open>image_url\<close>.
\<close>

definition complete_poi :: "json \<Rightarrow> bool" where
  "complete_poi p =
     (case p of
        JObj kvs \<Rightarrow> truthy (dict_get kvs (ascii ''location''))
                    \<and> truthy (dict_get kvs (ascii ''image_url''))
      | _ \<Rightarrow> False)"

definition complete_day :: "json \<Rightarrow> bool" where
  "complete_day d =
     (case d of
        JObj kvs \<Rightarrow>
          (case map_of kvs (ascii ''pois'') of
             None \<Rightarrow> True
           | Some (JArr ps) \<Rightarrow> list_all complete_poi ps
           | Some _ \<Rightarrow> False)
      | _ \<Rightarrow> False)"

definition complete_plan :: "json \<Rightarrow> bool" where
  "complete_plan plan =
     (case plan of
        JObj kvs \<Rightarrow>
          (case map_of kvs (ascii ''daily_plans'') of
             None \<Rightarrow> True
           | Some (JArr ds) \<Rightarrow> list_all complete_day ds
           | Some _ \<Rightarrow> False)
      | _ \<Rightarrow> False)"

text \<open>The POIs of a day and of a plan, day by day.\<close>

definition day_pois :: "json \<Rightarrow> json list" where
  "day_pois d =
     (case d of
        JObj kvs \<Rightarrow> (case map_of kvs (ascii ''pois'') of Some (JArr ps) \<Rightarrow> ps | _ \<Rightarrow> [])
      | _ \<Rightarrow> [])"

definition plan_pois :: "json \<Rightarrow> json list list" where
  "plan_pois plan =
     (case plan of
        JObj kvs \<Rightarrow>
          (case map_of kvs (ascii ''daily_plans'') of
             Some (JArr ds) \<Rightarrow> map day_pois ds
           | _ \<Rightarrow> [])
      | _ \<Rightarrow> [])"

text \<open>The calls of the route computation; all other calls of the enrichment are
  coordinate or image lookups.\<close>

fun is_route_call :: "call \<Rightarrow> bool" where
  "is_route_call (RouteWalking a b) = True"
| "is_route_call (RouteDriving a b) = True"
| "is_route_call (RouteBicycling a b) = True"
| "is_route_call (RouteTransit a b c) = True"
| "is_route_call c = False"

text \<open>Example: a plan of one day with two complete POIs.\<close>

definition complete_poi_a :: json where
  "complete_poi_a = JObj [(ascii ''name'', JStr (ascii ''A'')),
     (ascii ''location'', JStr (ascii ''120.1,30.2'')),
     (ascii ''image_url'', JStr (ascii ''https://a.io/a.jpg''))]"

definition complete_poi_b :: json where
  "complete_poi_b = JObj [(ascii ''name'', JStr (ascii ''B'')),
     (ascii ''location'', JStr (ascii ''120.3,30.4'')),
     (ascii ''image_url'', JStr (ascii ''https://a.io/b.jpg''))]"

definition complete_sample_plan :: json where
  "complete_sample_plan = JObj [(ascii ''type'', JStr (ascii ''trip_plan'')),
     (ascii ''daily_plans'',
        JArr [JObj [(ascii ''day'', JInt 1),
                    (ascii ''pois'', JArr [complete_poi_a, complete_poi_b])]])]"

fun is_lookup_call :: "call \<Rightarrow> bool" where
  "is_lookup_call (TextSearch k c) = True"
| "is_lookup_call (UnsplashGet q) = True"
| "is_lookup_call (AmapStaticImage l) = True"
| "is_lookup_call (DdgsImages q n) = True"
| "is_lookup_call (HttpHead u) = True"
| "is_lookup_call c = False"

section \<open>The gathered context\<close>

text \<open>
  The context dict built by the gatherer: \<open>weather\<close> and \<open>photo_spots\<close> may be absent,
  the other keys are always set.
\<close>

record plan_context =
  ctx_weather :: "json option"
  ctx_attractions :: "poi list"
  ctx_food :: "poi list"
  ctx_hotels :: "poi list"
  ctx_photo_spots :: "poi list option"
  ctx_summary :: pystr
  ctx_intent :: json

section \<open>PromptBuilder\<close>

text \<open>
  \<open>TripPlanner._build_prompt_with_intent\<close> and \<open>_build_travelogue_prompt\<close>. The fixed
  prose of the f-strings is taken from the environment by segment number; separators,
  defaults and the closing instruction are the literals of the source.
\<close>

definition prefs_text :: "plan_request \<Rightarrow> pystr" where
  "prefs_text request =
     (if req_preferences request \<noteq> [] then str_join [12289] (req_preferences request)
      else [32508, 21512, 20307, 39564])"

text \<open>
  \<^verbatim>\<open>
  if intent.get("specific_places"):
      intent_summary.append(f"...{', '.join(intent['specific_places'])}")
  \<close>
\<close>

definition joined_part :: "env \<Rightarrow> json \<Rightarrow> string \<Rightarrow> nat \<Rightarrow> pyerr + pystr list" where
  "joined_part e intent key seg =
     on_ok (py_get intent (ascii key) JNull) (\<lambda>v.
       if truthy v then on_ok (py_join (ascii '', '') v) (\<lambda>j. Inr [prose e seg @ j])
       else Inr [])"

definition intent_summary :: "env \<Rightarrow> json \<Rightarrow> pyerr + pystr list" where
  "intent_summary e intent =
     on_ok (joined_part e intent ''specific_places'' 36) (\<lambda>places.
     on_ok (joined_part e intent ''must_eat'' 37) (\<lambda>eat.
     on_ok (py_get intent (ascii ''travel_style'') JNull) (\<lambda>style.
     on_ok (joined_part e intent ''special_needs'' 39) (\<lambda>needs.
     on_ok (py_get intent (ascii ''avoid_crowds'') JNull) (\<lambda>avoid.
       Inr (places @ eat
            @ (if truthy style then [prose e 38 @ py_str e style] else [])
            @ needs
            @ (if truthy avoid then [prose e 40] else [])))))))"

definition intent_text :: "env \<Rightarrow> pystr list \<Rightarrow> pystr" where
  "intent_text e summary = (if summary \<noteq> [] then str_join [10] summary else prose e 41)"

definition transport_desc :: "env \<Rightarrow> transport \<Rightarrow> pystr" where
  "transport_desc e mode =
     (case mode of
        WALKING \<Rightarrow> prose e 32
      | DRIVING \<Rightarrow> prose e 33
      | TRANSIT \<Rightarrow> prose e 34
      | BICYCLING \<Rightarrow> prose e 35)"

definition budget_str :: "env \<Rightarrow> plan_request \<Rightarrow> pystr" where
  "budget_str e request =
     (case req_budget_level request of
        None \<Rightarrow> []
      | Some level \<Rightarrow>
          if level = [] then []
          else prose e 26
               @ (if level = ascii ''low'' then prose e 27
                  else if level = ascii ''medium'' then prose e 28
                  else if level = ascii ''high'' then prose e 29
                  else level))"

definition date_str :: "env \<Rightarrow> plan_request \<Rightarrow> pystr" where
  "date_str e request =
     (case req_start_date request of
        None \<Rightarrow> []
      | Some d \<Rightarrow> if d = [] then [] else prose e 30 @ d)"

definition desc_str :: "env \<Rightarrow> plan_request \<Rightarrow> pystr" where
  "desc_str e request =
     (case req_description request of
        None \<Rightarrow> []
      | Some d \<Rightarrow> if d = [] then [] else prose e 31 @ d)"

text \<open>The context fragments: names of the first 10 attractions, 8 restaurants (with
  rating), 5 hotels and 5 photo spots.\<close>

definition attractions_info :: "env \<Rightarrow> plan_context \<Rightarrow> pystr" where
  "attractions_info e ctx =
     (if ctx_attractions ctx \<noteq> []
      then prose e 20 @ str_join (ascii '', '') (map poi_name (take 10 (ctx_attractions ctx)))
      else [])"

definition food_info :: "env \<Rightarrow> plan_context \<Rightarrow> pystr" where
  "food_info e ctx =
     (if ctx_food ctx \<noteq> []
      then prose e 21
           @ str_join (ascii '', '')
               (map (\<lambda>f. poi_name f @ [40] @ py_str e (poi_rating f) @ [20998, 41])
                  (take 8 (ctx_food ctx)))
      else [])"

definition hotel_info :: "env \<Rightarrow> plan_context \<Rightarrow> pystr" where
  "hotel_info e ctx =
     (if ctx_hotels ctx \<noteq> []
      then prose e 22 @ str_join (ascii '', '') (map poi_name (take 5 (ctx_hotels ctx)))
      else [])"

definition photo_info :: "env \<Rightarrow> plan_context \<Rightarrow> pystr" where
  "photo_info e ctx =
     (case ctx_photo_spots ctx of
        None \<Rightarrow> []
      | Some spots \<Rightarrow>
          if spots \<noteq> []
          then prose e 23 @ str_join (ascii '', '') (map poi_name (take 5 spots))
          else [])"

text \<open>
  The weather fragments (lines 427-443). They are read from the keys \<open>lives\<close> and
  \<open>forecasts\<close>, the latter as a list whose first element holds the \<open>casts\<close>:
  \<^verbatim>\<open>
  weather = context["weather"]
  if weather.get("lives"):
      live = weather["lives"][0] if isinstance(weather["lives"], list) else weather["lives"]
      weather_info = f"...{live.get('weather', ...)}...{live.get('temperature', ...)}..."
  if weather.get("forecasts"):
      forecasts = weather["forecasts"]
      if isinstance(forecasts, list) and len(forecasts) > 0:
          forecast_list = forecasts[0].get("casts", []) if isinstance(forecasts[0], dict) else []
          if forecast_list:
              for f in forecast_list[:request.days]:
                  forecast_strs.append(f"{f.get('date', '')} {f.get('dayweather', '')} ...")
              weather_tips = "..." + ";".join(forecast_strs)
  \<close>
\<close>

definition get_or :: "json \<Rightarrow> string \<Rightarrow> json \<Rightarrow> pyerr + json" where
  "get_or d key dflt = py_get d (ascii key) dflt"

definition weather_info :: "env \<Rightarrow> json \<Rightarrow> pyerr + pystr" where
  "weather_info e w =
     on_ok (py_get w (ascii ''lives'') JNull) (\<lambda>lives.
       if truthy lives then
         (let live = (case lives of JArr (x # xs) \<Rightarrow> x | _ \<Rightarrow> lives)
          in on_ok (get_or live ''weather'' (JStr [26410, 30693])) (\<lambda>a.
             on_ok (get_or live ''temperature'' (JStr [26410, 30693])) (\<lambda>b.
             on_ok (get_or live ''humidity'' (JStr [26410, 30693])) (\<lambda>c.
             on_ok (get_or live ''winddirection'' (JStr [26410, 30693])) (\<lambda>d.
               Inr (prose e 42 @ py_str e a @ prose e 43 @ py_str e b @ prose e 44
                    @ py_str e c @ prose e 45 @ py_str e d @ prose e 46))))))
       else Inr [])"

definition forecast_line :: "env \<Rightarrow> json \<Rightarrow> pyerr + pystr" where
  "forecast_line e f =
     on_ok (get_or f ''date'' (JStr [])) (\<lambda>a.
     on_ok (get_or f ''dayweather'' (JStr [])) (\<lambda>b.
     on_ok (get_or f ''nighttemp'' (JStr [])) (\<lambda>c.
     on_ok (get_or f ''daytemp'' (JStr [])) (\<lambda>d.
       Inr (py_str e a @ [32] @ py_str e b @ [32] @ py_str e c @ [126] @ py_str e d
            @ [8451])))))"

fun forecast_lines :: "env \<Rightarrow> json list \<Rightarrow> pyerr + pystr list" where
  "forecast_lines e [] = Inr []"
| "forecast_lines e (f # fs) =
     on_ok (forecast_line e f) (\<lambda>l. on_ok (forecast_lines e fs) (\<lambda>ls. Inr (l # ls)))"

definition weather_tips :: "env \<Rightarrow> plan_request \<Rightarrow> json \<Rightarrow> pyerr + pystr" where
  "weather_tips e request w =
     on_ok (py_get w (ascii ''forecasts'') JNull) (\<lambda>forecasts.
       case forecasts of
         JArr (first # others) \<Rightarrow>
           on_ok (case first of JObj kvs \<Rightarrow> py_get first (ascii ''casts'') (JArr [])
                  | _ \<Rightarrow> Inr (JArr [])) (\<lambda>forecast_list.
             if truthy forecast_list then
               on_ok (py_slice forecast_list (nat (req_days request))) (\<lambda>sl.
               on_ok (py_iter sl) (\<lambda>fs.
               on_ok (forecast_lines e fs) (\<lambda>ls.
                 Inr (prose e 48 @ str_join [65307] ls))))
             else Inr [])
       | _ \<Rightarrow> Inr [])"

definition weather_fragments :: "env \<Rightarrow> plan_request \<Rightarrow> plan_context \<Rightarrow> pyerr + pystr \<times> pystr" where
  "weather_fragments e request ctx =
     (case ctx_weather ctx of
        None \<Rightarrow> Inr ([], [])
      | Some w \<Rightarrow>
          if truthy w then
            on_ok (weather_info e w) (\<lambda>info.
            on_ok (weather_tips e request w) (\<lambda>tips. Inr (info, tips)))
          else Inr ([], []))"

definition weather_section :: "env \<Rightarrow> pystr \<times> pystr \<Rightarrow> pystr" where
  "weather_section e frag =
     (if fst frag \<noteq> [] \<or> snd frag \<noteq> []
      then prose e 24 @ fst frag @ [10] @ snd frag @ prose e 25
      else [])"

text \<open>The closing instruction of both templates:
  \<^verbatim>\<open>..., <append> JSON <structured data> (<wrapped in> ```json```).\<close>\<close>

definition json_instruction :: pystr where
  "json_instruction =
     [65292, 26368, 21518, 38468, 19978] @ ascii ''JSON''
     @ [26684, 24335, 30340, 32467, 26500, 21270, 25968, 25454, 65288, 29992]
     @ ascii ''```json```'' @ [21253, 35065, 65289, 12290]"

text \<open>
  The travelogue template. \<open>random.choice\<close> picks one of ten openings, each an f-string
  with the destination and then the days, and one of eight personas.
\<close>

definition opening_styles :: "env \<Rightarrow> plan_request \<Rightarrow> pystr list" where
  "opening_styles e request =
     map (\<lambda>k. prose e (60 + 3 * k) @ req_destination request
               @ prose e (61 + 3 * k) @ str_int (req_days request)
               @ prose e (62 + 3 * k))
       [0, 1, 2, 3, 4, 5, 6, 7, 8, 9]"

definition personas :: "env \<Rightarrow> pystr list" where
  "personas e = map (\<lambda>k. prose e (90 + k)) [0, 1, 2, 3, 4, 5, 6, 7]"

definition random_choice :: "env \<Rightarrow> call list \<Rightarrow> pystr list \<Rightarrow> pystr" where
  "random_choice e trace xs = xs ! (random_index e trace (length xs) mod length xs)"

definition travelogue_pieces ::
  "env \<Rightarrow> plan_request \<Rightarrow> pystr \<Rightarrow> pystr \<Rightarrow> pystr \<Rightarrow> call list \<Rightarrow> pystr list" where
  "travelogue_pieces e request prefs food hotel trace =
     [prose e 50, req_destination request, str_int (req_days request),
      prose e 51, random_choice e trace (opening_styles e request),
      prose e 52, random_choice e trace (personas e),
      prose e 53, req_destination request,
      prose e 54, str_int (req_days request),
      prose e 55, prefs, [10], food, hotel,
      prose e 56, json_instruction]"

definition build_travelogue_prompt ::
  "env \<Rightarrow> plan_request \<Rightarrow> pystr \<Rightarrow> pystr \<Rightarrow> pystr \<Rightarrow> call list \<Rightarrow> pystr" where
  "build_travelogue_prompt e request prefs food hotel trace =
     concat (travelogue_pieces e request prefs food hotel trace)"

text \<open>The planning template, as the list of its pieces.\<close>

definition planning_pieces ::
  "env \<Rightarrow> plan_request \<Rightarrow> plan_context \<Rightarrow> pystr list \<Rightarrow> pystr \<times> pystr \<Rightarrow> pystr list" where
  "planning_pieces e request ctx summary frag =
     [prose e 10, req_destination request, [32], str_int (req_days request),
      prose e 11, weather_section e frag,
      prose e 12, intent_text e summary,
      prose e 13, req_destination request,
      prose e 14, str_int (req_days request),
      prose e 15, prefs_text request,
      prose e 16, transport_desc e (req_transport_mode request),
      budget_str e request, date_str e request, desc_str e request, [10],
      attractions_info e ctx, food_info e ctx, hotel_info e ctx, photo_info e ctx,
      prose e 17, req_destination request,
      prose e 18, req_destination request,
      prose e 19, json_instruction]"

definition build_prompt_with_intent ::
  "env \<Rightarrow> plan_request \<Rightarrow> plan_context \<Rightarrow> json \<Rightarrow> pystr \<Rightarrow> call list \<Rightarrow> pyerr + pystr" where
  "build_prompt_with_intent e request ctx intent mode trace =
     on_ok (intent_summary e intent) (\<lambda>summary.
     on_ok (weather_fragments e request ctx) (\<lambda>frag.
       if mode = ascii ''travelogue''
       then Inr (build_travelogue_prompt e request (prefs_text request)
                   (food_info e ctx) (hotel_info e ctx) trace)
       else Inr (concat (planning_pieces e request ctx summary frag))))"

text \<open>
  A gathered weather is plain if the first cast does not itself hold a non-empty
  \<open>casts\<close> entry (the provider's casts carry the fields of one day).
\<close>

definition plain_weather :: "weather \<Rightarrow> bool" where
  "plain_weather w =
     (case w_forecasts w of
        [] \<Rightarrow> True
      | first # others \<Rightarrow>
          (case first of
             JObj kvs \<Rightarrow> (case map_of kvs (ascii ''casts'') of
                            None \<Rightarrow> True | Some v \<Rightarrow> \<not> truthy v)
           | _ \<Rightarrow> True))"

text \<open>
  An intent the gatherer and the prompt builder can read: a dict whose
  \<open>specific_places\<close>, \<open>must_eat\<close> and \<open>special_needs\<close>, where present, are lists of
  strings, and whose \<open>search_keywords\<close> and \<open>suggested_areas\<close>, where present, are lists.
\<close>

definition key_ok :: "(json \<Rightarrow> bool) \<Rightarrow> (pystr \<times> json) list \<Rightarrow> string \<Rightarrow> bool" where
  "key_ok ok kvs k = (case map_of kvs (ascii k) of None \<Rightarrow> True | Some v \<Rightarrow> ok v)"

definition is_list :: "json \<Rightarrow> bool" where
  "is_list v = (case v of JArr xs \<Rightarrow> True | _ \<Rightarrow> False)"

definition readable_intent :: "json \<Rightarrow> bool" where
  "readable_intent i =
     (case i of
        JObj kvs \<Rightarrow>
          list_all (key_ok is_str_list kvs) [''specific_places'', ''must_eat'', ''special_needs'']
          \<and> list_all (key_ok is_list kvs) [''search_keywords'', ''suggested_areas'']
      | _ \<Rightarrow> False)"

text \<open>Examples: a context with one attraction, one restaurant and a gathered weather, and
  the same context without weather.\<close>

definition west_lake :: poi where
  "west_lake = \<lparr>poi_id = ascii ''B1'', poi_name = [35199, 28246], poi_address = [],
     poi_location = ascii ''120.1,30.2'', poi_type = [], poi_tel = [], poi_rating = JNull,
     poi_cost = JNull\<rparr>"

definition noodle_house :: poi where
  "noodle_house = \<lparr>poi_id = ascii ''B2'', poi_name = [38754, 39302], poi_address = [],
     poi_location = ascii ''120.2,30.3'', poi_type = [], poi_tel = [],
     poi_rating = JStr (ascii ''4.5''), poi_cost = JNull\<rparr>"

definition sunny :: weather where
  "sunny = \<lparr>w_live = JObj [(ascii ''weather'', JStr (ascii ''Sunny'')),
                           (ascii ''temperature'', JStr (ascii ''21''))],
            w_forecasts = [JObj [(ascii ''date'', JStr (ascii ''2025-05-01'')),
                                 (ascii ''dayweather'', JStr (ascii ''Sunny'')),
                                 (ascii ''nighttemp'', JStr (ascii ''12'')),
                                 (ascii ''daytemp'', JStr (ascii ''23''))]]\<rparr>"

definition sample_context :: "json option \<Rightarrow> plan_context" where
  "sample_context w = \<lparr>ctx_weather = w, ctx_attractions = [west_lake],
     ctx_food = [noodle_house], ctx_hotels = [], ctx_photo_spots = None, ctx_summary = [],
     ctx_intent = JObj []\<rparr>"

section \<open>ContextGatherer\<close>











section \<open>The pipeline\<close>




















section \<open>Properties of the attraction merge\<close>

lemma dedup_loop_firsts: "dedup_loop ps seen acc = acc @ firsts seen ps"
  by (induction ps arbitrary: seen acc) auto

lemma firsts_names: "poi_name ` set (firsts seen ps) = poi_name ` set ps - seen"
  by (induction ps arbitrary: seen) auto

lemma firsts_distinct: "distinct (map poi_name (firsts seen ps))"
proof (induction ps arbitrary: seen)
  case Nil
  then show ?case by simp
next
  case (Cons p ps)
  have "poi_name p \<notin> poi_name ` set (firsts (insert (poi_name p) seen) ps)"
    by (simp add: firsts_names)
  with Cons show ?case by simp
qed

lemma firsts_subseq: "subseq (firsts seen ps) ps"
  by (induction ps arbitrary: seen) auto

lemma firsts_find:
  "n \<notin> seen \<Longrightarrow> find (\<lambda>p. poi_name p = n) (firsts seen ps) = find (\<lambda>p. poi_name p = n) ps"
proof (induction ps arbitrary: seen)
  case Nil
  then show ?case by simp
next
  case (Cons p ps)
  show ?case
  proof (cases "poi_name p = n")
    case True
    with Cons.prems show ?thesis by simp
  next
    case False
    with Cons show ?thesis by auto
  qed
qed

lemma find_append_left: "find P xs \<noteq> None \<Longrightarrow> find P (xs @ ys) = find P xs"
  by (induction xs) auto

lemma distinct_name_count:
  "distinct (map poi_name ps) \<Longrightarrow> name_count n ps \<le> 1"
  unfolding name_count_def
  by (induction ps) (auto simp: image_iff filter_empty_conv)

lemma name_count_pos: "n \<in> poi_name ` set ps \<Longrightarrow> 0 < name_count n ps"
  unfolding name_count_def by (auto simp: filter_empty_conv)

lemma distinct_take_names: "distinct (map poi_name ps) \<Longrightarrow> distinct (map poi_name (take k ps))"
  by (metis distinct_take take_map)

text \<open>
  C1 (as the code has it). The attractions list is the first 15 entries of the
  deduplicated concatenation of the specific-place results and the keyword results.
  The deduplicated concatenation has pairwise distinct names, carries exactly the names
  of the two lists, keeps the relative order of the concatenation, and keeps for each
  name the first entry of the concatenation with that name. The attractions list has at
  most 15 entries and no name twice. A name that occurs in both source lists occurs
  exactly once in the deduplicated concatenation, as the first entry with that name of
  the specific-place results; it occurs exactly once in the attractions list whenever the
  deduplicated concatenation has at most 15 entries.
\<close>

theorem merge_attractions_dedup_cap:
  fixes specific general :: "poi list"
  defines "u \<equiv> unique_attractions specific general"
  shows "merge_attractions specific general = take 15 u
    \<and> length (merge_attractions specific general) \<le> 15
    \<and> distinct (map poi_name u)
    \<and> poi_name ` set u = poi_name ` set (specific @ general)
    \<and> subseq u (specific @ general)
    \<and> (\<forall>p \<in> set u. find (\<lambda>q. poi_name q = poi_name p) (specific @ general) = Some p)
    \<and> distinct (map poi_name (merge_attractions specific general))
    \<and> (\<forall>n. n \<in> poi_name ` set specific \<and> n \<in> poi_name ` set general \<longrightarrow>
          name_count n u = 1
        \<and> find (\<lambda>p. poi_name p = n) u = find (\<lambda>p. poi_name p = n) specific
        \<and> name_count n (merge_attractions specific general) \<le> 1
        \<and> (length u \<le> 15 \<longrightarrow> name_count n (merge_attractions specific general) = 1))"
proof -
  have u: "u = firsts {} (specific @ general)"
    by (simp add: u_def unique_attractions_def dedup_loop_firsts)
  have d: "distinct (map poi_name u)"
    by (simp add: u firsts_distinct)
  have names: "poi_name ` set u = poi_name ` set (specific @ general)"
    by (simp only: u firsts_names Diff_empty)
  have fnd: "find (\<lambda>p. poi_name p = n) u = find (\<lambda>p. poi_name p = n) (specific @ general)" for n
    by (simp add: u firsts_find)
  have kept: "find (\<lambda>q. poi_name q = poi_name p) (specific @ general) = Some p"
    if "p \<in> set u" for p
  proof -
    have "find (\<lambda>q. poi_name q = poi_name p) u \<noteq> None"
      using that by (auto simp: find_None_iff)
    then obtain q where q: "find (\<lambda>q. poi_name q = poi_name p) u = Some q"
      by auto
    then have "q \<in> set u" and "poi_name q = poi_name p"
      by (auto simp: find_Some_iff)
    with d that have "q = p"
      by (meson distinct_map inj_onD)
    with q show ?thesis by (simp add: fnd)
  qed
  have dm: "distinct (map poi_name (merge_attractions specific general))"
    unfolding merge_attractions_def u_def [symmetric] using d by (rule distinct_take_names)
  have both: "name_count n u = 1
        \<and> find (\<lambda>p. poi_name p = n) u = find (\<lambda>p. poi_name p = n) specific
        \<and> name_count n (merge_attractions specific general) \<le> 1
        \<and> (length u \<le> 15 \<longrightarrow> name_count n (merge_attractions specific general) = 1)"
    if s: "n \<in> poi_name ` set specific" and g: "n \<in> poi_name ` set general" for n
  proof -
    from s have "n \<in> poi_name ` set u" by (auto simp: names)
    then have "0 < name_count n u" by (rule name_count_pos)
    moreover have "name_count n u \<le> 1" using d by (rule distinct_name_count)
    ultimately have one: "name_count n u = 1" by simp
    from s obtain p where "p \<in> set specific" "poi_name p = n" by auto
    then have "find (\<lambda>p. poi_name p = n) specific \<noteq> None"
      by (auto simp: find_None_iff)
    then have "find (\<lambda>p. poi_name p = n) (specific @ general) = find (\<lambda>p. poi_name p = n) specific"
      by (rule find_append_left)
    then have f: "find (\<lambda>p. poi_name p = n) u = find (\<lambda>p. poi_name p = n) specific"
      by (simp add: fnd)
    have le: "name_count n (merge_attractions specific general) \<le> 1"
      using dm by (rule distinct_name_count)
    have "name_count n (merge_attractions specific general) = 1" if "length u \<le> 15"
      using that one by (simp add: merge_attractions_def u_def [symmetric])
    with one f le show ?thesis by simp
  qed
  have m: "merge_attractions specific general = take 15 u"
    by (simp add: merge_attractions_def u_def)
  have l: "length (merge_attractions specific general) \<le> 15"
    by (simp add: m)
  have sub: "subseq u (specific @ general)"
    unfolding u by (rule firsts_subseq)
  from m l d names sub kept dm both show ?thesis
    by blast
qed

theorem merge_attractions_dedup_cap_witness:
  "merge_attractions [named_poi 1, named_poi 2] [named_poi 2, named_poi 3]
     = [named_poi 1, named_poi 2, named_poi 3]
   \<and> name_count [2] (merge_attractions [named_poi 1, named_poi 2] [named_poi 2, named_poi 3]) = 1"
proof -
  have m: "merge_attractions [named_poi 1, named_poi 2] [named_poi 2, named_poi 3]
     = [named_poi 1, named_poi 2, named_poi 3]"
    by (simp add: merge_attractions_def unique_attractions_def named_poi_def)
  have u: "length (unique_attractions [named_poi 1, named_poi 2] [named_poi 2, named_poi 3]) \<le> 15"
    by (simp add: unique_attractions_def named_poi_def)
  have s: "[2] \<in> poi_name ` set [named_poi 1, named_poi 2]"
    by (simp add: named_poi_def)
  have g: "[2] \<in> poi_name ` set [named_poi 2, named_poi 3]"
    by (simp add: named_poi_def)
  from merge_attractions_dedup_cap [of "[named_poi 1, named_poi 2]" "[named_poi 2, named_poi 3]"]
    s g u m show ?thesis by blast
qed

text \<open>
  C1 as stated fails once more than 15 distinct names are gathered: with 16 specific-place
  results of distinct names, the last of which is also a keyword result, that name occurs
  in both source lists and not at all in the attractions list.
\<close>

theorem merge_attractions_counterexample:
  "[15] \<in> poi_name ` set (map named_poi [0, 1, 2, 3, 4, 5, 6, 7, 8, 9, 10, 11, 12, 13, 14, 15])
   \<and> [15] \<in> poi_name ` set [named_poi 15]
   \<and> name_count [15]
       (merge_attractions (map named_poi [0, 1, 2, 3, 4, 5, 6, 7, 8, 9, 10, 11, 12, 13, 14, 15])
          [named_poi 15]) = 0"
  by (simp add: merge_attractions_def unique_attractions_def named_poi_def name_count_def)

section \<open>Properties of the fenced-block search and of the parser\<close>
























section \<open>Properties of the intent extractor\<close>






section \<open>Properties of the share code\<close>

lemma find_id_append:
  "p \<notin> row_id ` set rs \<Longrightarrow>
     find (\<lambda>r. row_id r = p) (rs @ [r]) = (if row_id r = p then Some r else None)"
  by (induction rs) auto

lemma find_id_map:
  assumes "\<And>r. row_id (f r) = row_id r"
  shows "find (\<lambda>r. row_id r = p) (map f rs) = map_option f (find (\<lambda>r. row_id r = p) rs)"
  by (induction rs) (auto simp: assms)

lemma apply_updates_fields:
  "row_id (apply_updates k c now r) = row_id r"
  "row_user_id (apply_updates k c now r) = row_user_id r"
  "row_share_code (apply_updates k c now r)
     = (case c of None \<Rightarrow> row_share_code r | Some t \<Rightarrow> Some t)"
  "row_is_public (apply_updates k c now r)
     = (case u_is_public k of None \<Rightarrow> row_is_public r | Some v \<Rightarrow> v)"
  by (simp_all add: apply_updates_def)

lemma new_row_fields:
  "row_id (new_row u t now a) = u"
  "row_is_public (new_row u t now a) = c_is_public a"
  "row_share_code (new_row u t now a) = (if c_is_public a then Some t else None)"
  by (simp_all add: new_row_def)

lemma insert_plan_Inr:
  assumes "insert_plan d r = Inr d'"
  shows "d' = d\<lparr>db_plans := db_plans d @ [r]\<rparr>" and "row_id r \<notin> row_id ` set (db_plans d)"
  using assms by (simp_all add: insert_plan_def split: if_splits)

lemma db_create_plan_result:
  assumes "db_create_plan d new_uuid new_token now a = (Inr row, d')" and "wf_db d"
  shows "\<exists>r. row = Some r \<and> get_plan_by_id d' new_uuid = Some r
     \<and> (row_share_code r \<noteq> None \<longleftrightarrow> c_is_public a)
     \<and> row_is_public r = c_is_public a
     \<and> (c_is_public a \<longrightarrow> row_share_code r = Some new_token)
     \<and> wf_db d' \<and> db_plans d' = db_plans d @ [r]"
proof -
  let ?r = "new_row new_uuid new_token now a"
  from assms(1) have i: "insert_plan d ?r = Inr d'" and g: "row = get_plan_by_id d' new_uuid"
    by (simp_all add: db_create_plan_def split: sum.splits)
  note s = insert_plan_Inr [OF i]
  have n: "new_uuid \<notin> row_id ` set (db_plans d)"
    using s(2) by (simp add: new_row_fields)
  have f: "get_plan_by_id d' new_uuid = Some ?r"
    by (simp add: s(1) get_plan_by_id_def find_id_append [OF n] new_row_fields)
  have w: "wf_db d'"
    using assms(2) n by (simp add: s(1) wf_db_def new_row_fields)
  have p: "db_plans d' = db_plans d @ [?r]"
    by (simp add: s(1))
  show ?thesis
    using f g w p by (simp add: new_row_fields)
qed

lemma db_update_plan_map:
  assumes "\<not> no_updates k"
    and "c = (if u_is_public k = Some True \<and> \<not> has_share_code d plan_id
              then Some new_token else None)"
    and "c = None \<or> c \<notin> set (map row_share_code (db_plans d))"
  shows "db_update_plan d new_token now plan_id user_id k =
     (Inr (map_option
             (\<lambda>r. if row_id r = plan_id \<and> row_user_id r = user_id
                   then apply_updates k c now r else r)
             (get_plan_by_id d plan_id)),
      d\<lparr>db_plans :=
           map (\<lambda>r. if row_id r = plan_id \<and> row_user_id r = user_id
                     then apply_updates k c now r else r) (db_plans d)\<rparr>)"
proof -
  let ?f = "\<lambda>r. if row_id r = plan_id \<and> row_user_id r = user_id
                  then apply_updates k c now r else r"
  have id: "row_id (?f r) = row_id r" for r
    by (simp add: apply_updates_fields)
  have ok: "\<not> (c \<noteq> None
      \<and> filter (\<lambda>r. row_id r = plan_id \<and> row_user_id r = user_id) (db_plans d) \<noteq> []
      \<and> c \<in> set (map row_share_code
            (filter (\<lambda>r. \<not> (row_id r = plan_id \<and> row_user_id r = user_id)) (db_plans d))))"
    using assms(3) by auto
  have "get_plan_by_id (d\<lparr>db_plans := map ?f (db_plans d)\<rparr>) plan_id
      = map_option ?f (get_plan_by_id d plan_id)"
    unfolding get_plan_by_id_def using id by (simp add: find_id_map)
  then show ?thesis
    using assms(1) ok
    by (simp add: db_update_plan_def Let_def assms(2) [symmetric])
qed

lemma wf_db_map:
  assumes "wf_db d" and "\<And>r. row_id (f r) = row_id r"
  shows "wf_db (d\<lparr>db_plans := map f (db_plans d)\<rparr>)"
proof -
  have "map row_id (map f rs) = map row_id rs" for rs
    by (induction rs) (simp_all add: assms(2))
  then have "map row_id (map f (db_plans d)) = map row_id (db_plans d)" .
  with assms(1) show ?thesis
    by (simp add: wf_db_def del: map_map)
qed

lemma public_is_update: "\<not> no_updates (set_public b)" "u_is_public (set_public b) = Some b"
  by (simp_all add: no_updates_def set_public_def)

text \<open>Making public a plan that already has a code keeps the code.\<close>

lemma db_update_plan_keeps_code:
  assumes "get_plan_by_id d plan_id = Some r" and "row_share_code r = Some c"
    and "u_is_public k = Some True"
  shows "\<exists>r' d'. db_update_plan d new_token now plan_id user_id k = (Inr (Some r'), d')
     \<and> row_share_code r' = Some c"
proof -
  have n: "\<not> no_updates k"
    using assms(3) by (auto simp: no_updates_def)
  have h: "has_share_code d plan_id"
    using assms(1,2) by (simp add: has_share_code_def)
  have "None = (if u_is_public k = Some True \<and> \<not> has_share_code d plan_id
                then Some new_token else None)"
    using h by simp
  from db_update_plan_map [OF n this] show ?thesis
    using assms(1,2) by (simp add: apply_updates_fields)
qed

text \<open>Making public a plan of the user that has no code assigns the new token.\<close>

lemma db_update_plan_assigns_code:
  assumes "wf_db d" and "get_plan_by_id d plan_id = Some r" and "row_user_id r = user_id"
    and "row_share_code r = None"
    and "Some new_token \<notin> set (map row_share_code (db_plans d))"
  shows "\<exists>r' d'. db_update_plan d new_token now plan_id user_id (set_public True)
       = (Inr (Some r'), d')
     \<and> row_share_code r' = Some new_token \<and> row_is_public r' \<and> wf_db d'
     \<and> get_plan_by_id d' plan_id = Some r'"
proof -
  let ?f = "\<lambda>r. if row_id r = plan_id \<and> row_user_id r = user_id
                  then apply_updates (set_public True) (Some new_token) now r else r"
  have h: "\<not> has_share_code d plan_id"
    using assms(2,4) by (simp add: has_share_code_def)
  have c: "Some new_token = (if u_is_public (set_public True) = Some True
        \<and> \<not> has_share_code d plan_id then Some new_token else None)"
    using h by (simp add: public_is_update)
  have i: "row_id r = plan_id"
    using assms(2) by (auto simp: get_plan_by_id_def find_Some_iff)
  have id: "row_id (?f r) = row_id r" for r
    by (simp add: apply_updates_fields)
  have g: "get_plan_by_id (d\<lparr>db_plans := map ?f (db_plans d)\<rparr>) plan_id
      = map_option ?f (get_plan_by_id d plan_id)"
    unfolding get_plan_by_id_def using id by (simp add: find_id_map)
  have w: "wf_db (d\<lparr>db_plans := map ?f (db_plans d)\<rparr>)"
    using assms(1) id by (rule wf_db_map)
  from db_update_plan_map [OF public_is_update(1) c] assms(5)
  have "db_update_plan d new_token now plan_id user_id (set_public True)
     = (Inr (map_option ?f (get_plan_by_id d plan_id)), d\<lparr>db_plans := map ?f (db_plans d)\<rparr>)"
    by simp
  then show ?thesis
    using assms(2,3) i g w by (simp add: apply_updates_fields public_is_update)
qed

text \<open>An update that does not make the plan public leaves every share code as it is.\<close>

lemma db_update_plan_no_publish:
  assumes "get_plan_by_id d plan_id = Some r" and "u_is_public k \<noteq> Some True"
  shows "\<exists>r' d'. db_update_plan d new_token now plan_id user_id k = (Inr (Some r'), d')
     \<and> row_share_code r' = row_share_code r
     \<and> map row_share_code (db_plans d') = map row_share_code (db_plans d)"
proof (cases "no_updates k")
  case True
  with assms(1) show ?thesis
    by (simp add: db_update_plan_def)
next
  case False
  let ?f = "\<lambda>r. if row_id r = plan_id \<and> row_user_id r = user_id
                  then apply_updates k None now r else r"
  have c: "None = (if u_is_public k = Some True \<and> \<not> has_share_code d plan_id
                then Some new_token else None)"
    using assms(2) by simp
  have u: "db_update_plan d new_token now plan_id user_id k =
     (Inr (map_option ?f (get_plan_by_id d plan_id)), d\<lparr>db_plans := map ?f (db_plans d)\<rparr>)"
    by (rule db_update_plan_map [OF False c]) simp
  have k: "row_share_code (?f x) = row_share_code x" for x
    by (simp add: apply_updates_fields)
  have "map row_share_code (map ?f rs) = map row_share_code rs" for rs
    by (induction rs) (simp_all add: apply_updates_fields)
  then have m: "map row_share_code (map ?f (db_plans d)) = map row_share_code (db_plans d)" .
  show ?thesis
    using k [of r] m by (simp add: u assms(1) del: map_map)
qed

lemma find_by_id:
  assumes "distinct (map row_id rs)" and "r \<in> set rs"
  shows "find (\<lambda>x. row_id x = row_id r) rs = Some r"
  using assms by (induction rs) auto

text \<open>The share codes after an update that succeeds: only the code of the updated plan
  can change, and only when the plan is made public and has no code.\<close>

lemma db_update_plan_codes:
  assumes "wf_db d" and "db_update_plan d new_token now plan_id user_id k = (Inr row, d')"
  shows "map row_share_code (db_plans d') =
     map (\<lambda>r. if row_id r = plan_id \<and> row_user_id r = user_id
                  \<and> u_is_public k = Some True \<and> row_share_code r = None
               then Some new_token else row_share_code r) (db_plans d)"
proof (cases "no_updates k")
  case True
  then have "u_is_public k = None" by (simp add: no_updates_def)
  moreover from True assms(2) have "d' = d" by (simp add: db_update_plan_def)
  ultimately show ?thesis by simp
next
  case False
  let ?c = "if u_is_public k = Some True \<and> \<not> has_share_code d plan_id
            then Some new_token else None"
  let ?f = "\<lambda>r. if row_id r = plan_id \<and> row_user_id r = user_id
                  then apply_updates k ?c now r else r"
  let ?g = "\<lambda>r. if row_id r = plan_id \<and> row_user_id r = user_id
                  \<and> u_is_public k = Some True \<and> row_share_code r = None
               then Some new_token else row_share_code r"
  from assms(2) False have d': "d' = d\<lparr>db_plans := map ?f (db_plans d)\<rparr>"
    by (auto simp: db_update_plan_def Let_def split: if_splits)
  have e: "row_share_code (?f r) = ?g r" if "r \<in> set (db_plans d)" for r
  proof (cases "row_id r = plan_id \<and> row_user_id r = user_id")
    case True
    from assms(1) that have "find (\<lambda>x. row_id x = row_id r) (db_plans d) = Some r"
      unfolding wf_db_def by (rule find_by_id)
    with True have "get_plan_by_id d plan_id = Some r"
      by (simp add: get_plan_by_id_def)
    then have "has_share_code d plan_id \<longleftrightarrow> row_share_code r \<noteq> None"
      by (simp add: has_share_code_def)
    with True show ?thesis
      by (simp add: apply_updates_fields)
  next
    case False
    then show ?thesis by auto
  qed
  have "map row_share_code (map ?f (db_plans d)) = map ?g (db_plans d)"
    unfolding map_map by (rule map_cong) (use e in simp_all)
  then show ?thesis
    by (simp add: d' del: map_map)
qed

text \<open>
  C9. Creating a plan stores a share code exactly when the plan is created public (the
  code is the fresh token), and leaves the rows already stored as they are. Making public
  a plan of the user that has no code assigns the fresh token once: making it public
  again, with whatever new token, leaves that code in place. Making public a plan that
  already has a code never changes the code. An update that does not make the plan public
  (\<open>is_public\<close> false or not given) succeeds and leaves every code of the table as it
  is, the code of the plan included. After any update that succeeds, the code of a row
  has changed exactly if the row is the updated plan of the user, the update makes it
  public and it had no code; its code is then the fresh token.
\<close>

theorem share_code_assignment:
  assumes "wf_db d"
  shows
    "(\<forall>row d'. db_create_plan d new_uuid new_token now a = (Inr row, d') \<longrightarrow>
        (\<exists>r. row = Some r \<and> get_plan_by_id d' new_uuid = Some r
           \<and> (row_share_code r \<noteq> None \<longleftrightarrow> c_is_public a)
           \<and> row_is_public r = c_is_public a
           \<and> (c_is_public a \<longrightarrow> row_share_code r = Some new_token)
           \<and> wf_db d' \<and> db_plans d' = db_plans d @ [r]))
     \<and> (\<forall>r. get_plan_by_id d plan_id = Some r \<and> row_user_id r = user_id
           \<and> row_share_code r = None
           \<and> Some new_token \<notin> set (map row_share_code (db_plans d)) \<longrightarrow>
        (\<exists>r' d'. db_update_plan d new_token now plan_id user_id (set_public True)
              = (Inr (Some r'), d')
           \<and> row_share_code r' = Some new_token \<and> row_is_public r' \<and> wf_db d'
           \<and> (\<forall>token2 now2. \<exists>r'' d''.
                 db_update_plan d' token2 now2 plan_id user_id (set_public True)
                   = (Inr (Some r''), d'')
                 \<and> row_share_code r'' = Some new_token)))
     \<and> (\<forall>r c (k::plan_updates). get_plan_by_id d plan_id = Some r \<and> row_share_code r = Some c
           \<and> u_is_public k = Some True \<longrightarrow>
        (\<exists>r' d'. db_update_plan d new_token now plan_id user_id k = (Inr (Some r'), d')
           \<and> row_share_code r' = Some c))
     \<and> (\<forall>r (k::plan_updates). get_plan_by_id d plan_id = Some r
           \<and> u_is_public k \<noteq> Some True \<longrightarrow>
        (\<exists>r' d'. db_update_plan d new_token now plan_id user_id k = (Inr (Some r'), d')
           \<and> row_share_code r' = row_share_code r
           \<and> map row_share_code (db_plans d') = map row_share_code (db_plans d)))
     \<and> (\<forall>(k::plan_updates) row d'.
           db_update_plan d new_token now plan_id user_id k = (Inr row, d') \<longrightarrow>
           map row_share_code (db_plans d') =
             map (\<lambda>r. if row_id r = plan_id \<and> row_user_id r = user_id
                          \<and> u_is_public k = Some True \<and> row_share_code r = None
                       then Some new_token else row_share_code r) (db_plans d))"
proof (intro conjI allI impI)
  fix row d'
  assume "db_create_plan d new_uuid new_token now a = (Inr row, d')"
  from db_create_plan_result [OF this assms]
  show "\<exists>r. row = Some r \<and> get_plan_by_id d' new_uuid = Some r
           \<and> (row_share_code r \<noteq> None \<longleftrightarrow> c_is_public a)
           \<and> row_is_public r = c_is_public a
           \<and> (c_is_public a \<longrightarrow> row_share_code r = Some new_token)
           \<and> wf_db d' \<and> db_plans d' = db_plans d @ [r]" .
next
  fix r
  assume a: "get_plan_by_id d plan_id = Some r \<and> row_user_id r = user_id
           \<and> row_share_code r = None
           \<and> Some new_token \<notin> set (map row_share_code (db_plans d))"
  then have a1: "get_plan_by_id d plan_id = Some r" and a2: "row_user_id r = user_id"
    and a3: "row_share_code r = None"
    and a4: "Some new_token \<notin> set (map row_share_code (db_plans d))"
    by simp_all
  from db_update_plan_assigns_code [OF assms a1 a2 a3 a4, of now] obtain r' d' where
    u: "db_update_plan d new_token now plan_id user_id (set_public True) = (Inr (Some r'), d')"
    and f: "row_share_code r' = Some new_token" "row_is_public r'" "wf_db d'"
      "get_plan_by_id d' plan_id = Some r'"
    by auto
  have "\<exists>r'' d''. db_update_plan d' token2 now2 plan_id user_id (set_public True)
          = (Inr (Some r''), d'') \<and> row_share_code r'' = Some new_token" for token2 now2
    using f(4) f(1) public_is_update(2) by (rule db_update_plan_keeps_code)
  with u f show "\<exists>r' d'. db_update_plan d new_token now plan_id user_id (set_public True)
              = (Inr (Some r'), d')
           \<and> row_share_code r' = Some new_token \<and> row_is_public r' \<and> wf_db d'
           \<and> (\<forall>token2 now2. \<exists>r'' d''.
                 db_update_plan d' token2 now2 plan_id user_id (set_public True)
                   = (Inr (Some r''), d'')
                 \<and> row_share_code r'' = Some new_token)"
    by blast
next
  fix r c and k :: plan_updates
  assume "get_plan_by_id d plan_id = Some r \<and> row_share_code r = Some c
           \<and> u_is_public k = Some True"
  then show "\<exists>r' d'. db_update_plan d new_token now plan_id user_id k = (Inr (Some r'), d')
           \<and> row_share_code r' = Some c"
    using db_update_plan_keeps_code by blast
next
  fix r and k :: plan_updates
  assume a: "get_plan_by_id d plan_id = Some r \<and> u_is_public k \<noteq> Some True"
  then have "get_plan_by_id d plan_id = Some r" and "u_is_public k \<noteq> Some True"
    by simp_all
  then show "\<exists>r' d'. db_update_plan d new_token now plan_id user_id k = (Inr (Some r'), d')
           \<and> row_share_code r' = row_share_code r
           \<and> map row_share_code (db_plans d') = map row_share_code (db_plans d)"
    by (rule db_update_plan_no_publish)
next
  fix k :: plan_updates and row d'
  assume "db_update_plan d new_token now plan_id user_id k = (Inr row, d')"
  with assms show "map row_share_code (db_plans d') =
             map (\<lambda>r. if row_id r = plan_id \<and> row_user_id r = user_id
                          \<and> u_is_public k = Some True \<and> row_share_code r = None
                       then Some new_token else row_share_code r) (db_plans d)"
    by (rule db_update_plan_codes)
qed

theorem share_code_assignment_witness:
  "wf_db private_db
   \<and> (\<exists>r d'. db_create_plan private_db (ascii ''p2'') (ascii ''t1'') 1 (sample_args True)
         = (Inr (Some r), d') \<and> row_share_code r = Some (ascii ''t1''))
   \<and> (\<exists>r d'. db_create_plan private_db (ascii ''p2'') (ascii ''t1'') 1 (sample_args False)
         = (Inr (Some r), d') \<and> row_share_code r = None)
   \<and> (\<exists>r d'. db_update_plan private_db (ascii ''t2'') 2 (ascii ''p1'') (ascii ''u1'')
           (set_public True) = (Inr (Some r), d')
         \<and> row_share_code r = Some (ascii ''t2'')
         \<and> (\<exists>r' d''. db_update_plan d' (ascii ''t3'') 3 (ascii ''p1'') (ascii ''u1'')
               (set_public True) = (Inr (Some r'), d'')
             \<and> row_share_code r' = Some (ascii ''t2'')))
   \<and> (\<exists>r d'. db_update_plan private_db (ascii ''t2'') 2 (ascii ''p1'') (ascii ''u1'')
           (set_public False) = (Inr (Some r), d')
         \<and> row_share_code r = None
         \<and> map row_share_code (db_plans d') = [None])"
proof -
  have w: "wf_db private_db"
    by (simp add: wf_db_def private_db_def)
  have g: "get_plan_by_id private_db (ascii ''p1'') = Some private_row
      \<and> row_user_id private_row = ascii ''u1'' \<and> row_share_code private_row = None
      \<and> Some (ascii ''t2'') \<notin> set (map row_share_code (db_plans private_db))"
    by (simp add: get_plan_by_id_def private_db_def private_row_def)
  have c: "\<exists>row d'. db_create_plan private_db (ascii ''p2'') (ascii ''t1'') 1 (sample_args b)
      = (Inr row, d')" for b
    by (simp add: db_create_plan_def insert_plan_def private_db_def private_row_def
        sample_args_def new_row_def ascii_def)
  have p: "c_is_public (sample_args True)" "\<not> c_is_public (sample_args False)"
    by (simp_all add: sample_args_def)
  note t = share_code_assignment [OF w, where new_uuid = "ascii ''p2''"
      and new_token = "ascii ''t1''" and now = 1]
  from c [of True] obtain row d' where
    "db_create_plan private_db (ascii ''p2'') (ascii ''t1'') 1 (sample_args True) = (Inr row, d')"
    by auto
  with t [where a = "sample_args True", THEN conjunct1] p(1)
  have 1: "\<exists>r d'. db_create_plan private_db (ascii ''p2'') (ascii ''t1'') 1 (sample_args True)
         = (Inr (Some r), d') \<and> row_share_code r = Some (ascii ''t1'')"
    by auto
  from c [of False] obtain row d' where
    "db_create_plan private_db (ascii ''p2'') (ascii ''t1'') 1 (sample_args False) = (Inr row, d')"
    by auto
  with t [where a = "sample_args False", THEN conjunct1] p(2)
  have 2: "\<exists>r d'. db_create_plan private_db (ascii ''p2'') (ascii ''t1'') 1 (sample_args False)
         = (Inr (Some r), d') \<and> row_share_code r = None"
    by auto
  from share_code_assignment [OF w, where new_token = "ascii ''t2''" and now = 2
      and plan_id = "ascii ''p1''" and user_id = "ascii ''u1''",
      THEN conjunct2, THEN conjunct1, rule_format, OF g]
  obtain r d' where
    u: "db_update_plan private_db (ascii ''t2'') 2 (ascii ''p1'') (ascii ''u1'')
           (set_public True) = (Inr (Some r), d')"
    and k: "row_share_code r = Some (ascii ''t2'')"
    and again: "\<And>token2 now2. \<exists>r'' d''.
        db_update_plan d' token2 now2 (ascii ''p1'') (ascii ''u1'') (set_public True)
          = (Inr (Some r''), d'') \<and> row_share_code r'' = Some (ascii ''t2'')"
    by auto
  from u k again [of "ascii ''t3''" 3]
  have 3: "\<exists>r d'. db_update_plan private_db (ascii ''t2'') 2 (ascii ''p1'') (ascii ''u1'')
           (set_public True) = (Inr (Some r), d')
         \<and> row_share_code r = Some (ascii ''t2'')
         \<and> (\<exists>r' d''. db_update_plan d' (ascii ''t3'') 3 (ascii ''p1'') (ascii ''u1'')
               (set_public True) = (Inr (Some r'), d'')
             \<and> row_share_code r' = Some (ascii ''t2''))"
    by auto
  have h: "get_plan_by_id private_db (ascii ''p1'') = Some private_row
      \<and> u_is_public (set_public False) \<noteq> Some True"
    by (simp add: get_plan_by_id_def private_db_def private_row_def set_public_def)
  have n: "row_share_code private_row = None"
    "map row_share_code (db_plans private_db) = [None]"
    by (simp_all add: private_db_def private_row_def)
  from share_code_assignment [OF w, where new_token = "ascii ''t2''" and now = 2
      and plan_id = "ascii ''p1''" and user_id = "ascii ''u1''",
      THEN conjunct2, THEN conjunct2, THEN conjunct2, THEN conjunct1, rule_format, OF h]
  have 4: "\<exists>r d'. db_update_plan private_db (ascii ''t2'') 2 (ascii ''p1'') (ascii ''u1'')
           (set_public False) = (Inr (Some r), d')
         \<and> row_share_code r = None
         \<and> map row_share_code (db_plans d') = [None]"
    by (simp add: n)
  from w 1 2 3 4 show ?thesis by simp
qed

section \<open>Properties of the image resolver\<close>

lemma marker_coordinates_dicts:
  "list_all is_dict ms \<Longrightarrow> \<exists>cs. marker_coordinates e ms = Inr cs"
  by (induction ms) (auto simp: marker_coordinate_def py_get_def is_dict_def split: json.splits)

lemma static_map_params_dicts:
  assumes "\<forall>ms. markers = Some ms \<longrightarrow> list_all is_dict (take 5 ms)"
  shows "\<exists>ps. static_map_params e l markers z = Inr ps"
proof (cases markers)
  case None
  then show ?thesis by (simp add: static_map_params_def Let_def)
next
  case (Some ms)
  with assms have "list_all is_dict (take 5 ms)" by simp
  then obtain cs where "marker_coordinates e (take 5 ms) = Inr cs"
    using marker_coordinates_dicts by blast
  with Some show ?thesis by (simp add: static_map_params_def Let_def)
qed

lemma unsplash_snd:
  "snd (search_unsplash_image e d t)
     = (if unsplash_access_key e = [] then t else t @ [UnsplashGet (image_query d)])"
  by (simp add: search_unsplash_image_def)

lemma premium_hit:
  assumes "unsplash_access_key e \<noteq> []"
    and "unsplash_get e t (image_query d) = Inr (200, u # us)" and "u \<noteq> []"
  shows "search_destination_image e d location markers t
     = (Some u, t @ [UnsplashGet (image_query d)])"
  using assms by (simp add: search_destination_image_def search_unsplash_image_def)

lemma premium_miss:
  assumes "fst (search_unsplash_image e d t) = None \<or> fst (search_unsplash_image e d t) = Some []"
  shows "search_destination_image e d location markers t
     = static_map_or_web e d location markers (snd (search_unsplash_image e d t))"
proof -
  obtain u t' where p: "search_unsplash_image e d t = (u, t')"
    by (cases "search_unsplash_image e d t")
  with assms have "u = None \<or> u = Some []" by simp
  then show ?thesis
    by (auto simp: search_destination_image_def p)
qed

lemma static_map_hit:
  assumes "l \<noteq> []" and "amap_web_key e \<noteq> []"
    and "\<forall>ms. markers = Some ms \<longrightarrow> list_all is_dict (take 5 ms)"
  shows "\<exists>url. get_amap_static_image e l markers 12 t = (Inr url, t @ [AmapStaticImage l])
     \<and> static_map_or_web e d (Some l) markers t = (Some url, t @ [AmapStaticImage l])"
proof -
  from static_map_params_dicts [OF assms(3)] obtain ps
    where "static_map_params e l markers 12 = Inr ps" by blast
  then show ?thesis
    using assms(1,2) by (simp add: static_map_or_web_def get_amap_static_image_def)
qed

lemma static_map_skipped:
  assumes "location = None \<or> location = Some [] \<or> amap_web_key e = []"
  shows "static_map_or_web e d location markers t = web_image_search e d t"
  using assms by (auto simp: static_map_or_web_def split: option.splits)

lemma static_map_raises:
  assumes "fst (get_amap_static_image e l markers 12 t) = Inl err"
  shows "static_map_or_web e d (Some l) markers t = web_image_search e d t"
proof -
  from assms have "get_amap_static_image e l markers 12 t = (Inl err, t)"
    by (auto simp: get_amap_static_image_def split: sum.splits)
  then show ?thesis
    by (simp add: static_map_or_web_def)
qed

lemma marker_coordinates_not_dicts:
  "\<not> list_all is_dict ms \<Longrightarrow> marker_coordinates e ms = Inl AttributeError"
proof (induction ms)
  case Nil
  then show ?case by simp
next
  case (Cons m ms)
  show ?case
  proof (cases "is_dict m")
    case True
    with Cons.prems have "\<not> list_all is_dict ms" by simp
    from Cons.IH [OF this] True show ?thesis
      by (cases m) (simp_all add: marker_coordinate_def py_get_def is_dict_def)
  next
    case False
    then show ?thesis
      by (cases m) (simp_all add: marker_coordinate_def py_get_def is_dict_def)
  qed
qed

text \<open>A marker among the first five that is not a dict: building the static map raises,
  and the part after the premium tier is the web search.\<close>

lemma static_map_bad_marker:
  assumes "\<not> list_all is_dict (take 5 ms)"
  shows "fst (get_amap_static_image e l (Some ms) 12 t) = Inl AttributeError"
    and "static_map_or_web e d location (Some ms) t = web_image_search e d t"
proof -
  from assms have "ms \<noteq> []" by auto
  with marker_coordinates_not_dicts [OF assms, of e]
  show r: "fst (get_amap_static_image e l (Some ms) 12 t) = Inl AttributeError" for l
    by (simp add: get_amap_static_image_def static_map_params_def Let_def)
  show "static_map_or_web e d location (Some ms) t = web_image_search e d t"
  proof (cases "location = None \<or> location = Some [] \<or> amap_web_key e = []")
    case True
    then show ?thesis by (rule static_map_skipped)
  next
    case False
    then obtain l where "location = Some l" by auto
    with r [of l] show ?thesis
      by (simp add: static_map_raises)
  qed
qed

lemma web_search_fails:
  assumes "ddgs_images e t (image_query d) 20 = Inl err"
  shows "web_image_search e d t = (None, t @ [DdgsImages (image_query d) 20])"
  using assms by (simp add: web_image_search_def search_web_images_def)

text \<open>
  C5 (as the code has it). The tiers are tried in the order premium API, static map, web
  search, stopping at the first success. With the premium API configured and answering
  with a result, that URL is returned and the only call made is the premium request.
  With the premium tier unconfigured (then no request is made) or failing, a non-empty
  coordinate and a configured map key give the static-map URL, and no web search or
  probe is made, provided the first five markers are dicts. If one of them is not a
  dict, building the static map raises, the exception is caught and the result is that
  of the web search, as it is without coordinate or key. A failing web search gives
  \<open>None\<close>. The result is always a value: no tier's failure is raised.
\<close>

theorem image_tier_order:
  "(unsplash_access_key e \<noteq> []
      \<and> unsplash_get e t (image_query d) = Inr (200, u # us) \<and> u \<noteq> [] \<longrightarrow>
      search_destination_image e d location markers t
        = (Some u, t @ [UnsplashGet (image_query d)]))
   \<and> (unsplash_access_key e = [] \<longrightarrow> search_unsplash_image e d t = (None, t))
   \<and> (\<forall>err. unsplash_get e t (image_query d) = Inl err \<longrightarrow>
         fst (search_unsplash_image e d t) = None)
   \<and> ((fst (search_unsplash_image e d t) = None \<or> fst (search_unsplash_image e d t) = Some [])
       \<and> l \<noteq> [] \<and> amap_web_key e \<noteq> []
       \<and> (\<forall>ms. markers = Some ms \<longrightarrow> list_all is_dict (take 5 ms)) \<longrightarrow>
       (\<exists>url. get_amap_static_image e l markers 12 (snd (search_unsplash_image e d t))
                 = (Inr url, snd (search_unsplash_image e d t) @ [AmapStaticImage l])
          \<and> search_destination_image e d (Some l) markers t
                 = (Some url, snd (search_unsplash_image e d t) @ [AmapStaticImage l])))
   \<and> ((fst (search_unsplash_image e d t) = None \<or> fst (search_unsplash_image e d t) = Some [])
       \<and> (location = None \<or> location = Some [] \<or> amap_web_key e = []) \<longrightarrow>
       search_destination_image e d location markers t
         = web_image_search e d (snd (search_unsplash_image e d t)))
   \<and> ((fst (search_unsplash_image e d t) = None \<or> fst (search_unsplash_image e d t) = Some [])
       \<and> (\<exists>err. fst (get_amap_static_image e l markers 12 (snd (search_unsplash_image e d t)))
                  = Inl err) \<longrightarrow>
       search_destination_image e d (Some l) markers t
         = web_image_search e d (snd (search_unsplash_image e d t)))
   \<and> (\<forall>err t'. ddgs_images e t' (image_query d) 20 = Inl err \<longrightarrow>
         fst (web_image_search e d t') = None)
   \<and> (\<forall>ms. (fst (search_unsplash_image e d t) = None
             \<or> fst (search_unsplash_image e d t) = Some [])
         \<and> \<not> list_all is_dict (take 5 ms) \<longrightarrow>
         fst (get_amap_static_image e l (Some ms) 12 (snd (search_unsplash_image e d t)))
           = Inl AttributeError
       \<and> search_destination_image e d location (Some ms) t
           = web_image_search e d (snd (search_unsplash_image e d t)))"
proof (intro conjI impI allI)
  assume "unsplash_access_key e \<noteq> []
      \<and> unsplash_get e t (image_query d) = Inr (200, u # us) \<and> u \<noteq> []"
  then show "search_destination_image e d location markers t
        = (Some u, t @ [UnsplashGet (image_query d)])"
    by (simp add: premium_hit)
next
  assume "unsplash_access_key e = []"
  then show "search_unsplash_image e d t = (None, t)"
    by (simp add: search_unsplash_image_def)
next
  fix err
  assume "unsplash_get e t (image_query d) = Inl err"
  then show "fst (search_unsplash_image e d t) = None"
    by (simp add: search_unsplash_image_def)
next
  assume a: "(fst (search_unsplash_image e d t) = None \<or> fst (search_unsplash_image e d t) = Some [])
       \<and> l \<noteq> [] \<and> amap_web_key e \<noteq> []
       \<and> (\<forall>ms. markers = Some ms \<longrightarrow> list_all is_dict (take 5 ms))"
  then have m: "search_destination_image e d (Some l) markers t
     = static_map_or_web e d (Some l) markers (snd (search_unsplash_image e d t))"
    by (intro premium_miss) simp
  from a have "l \<noteq> []" "amap_web_key e \<noteq> []"
    "\<forall>ms. markers = Some ms \<longrightarrow> list_all is_dict (take 5 ms)"
    by simp_all
  from static_map_hit [OF this, of "snd (search_unsplash_image e d t)" d] m
  show "\<exists>url. get_amap_static_image e l markers 12 (snd (search_unsplash_image e d t))
                 = (Inr url, snd (search_unsplash_image e d t) @ [AmapStaticImage l])
          \<and> search_destination_image e d (Some l) markers t
                 = (Some url, snd (search_unsplash_image e d t) @ [AmapStaticImage l])"
    by simp
next
  assume a: "(fst (search_unsplash_image e d t) = None \<or> fst (search_unsplash_image e d t) = Some [])
       \<and> (location = None \<or> location = Some [] \<or> amap_web_key e = [])"
  then have "search_destination_image e d location markers t
     = static_map_or_web e d location markers (snd (search_unsplash_image e d t))"
    by (intro premium_miss) simp
  moreover from a have "static_map_or_web e d location markers (snd (search_unsplash_image e d t))
     = web_image_search e d (snd (search_unsplash_image e d t))"
    by (intro static_map_skipped) simp
  ultimately show "search_destination_image e d location markers t
         = web_image_search e d (snd (search_unsplash_image e d t))"
    by simp
next
  assume a: "(fst (search_unsplash_image e d t) = None \<or> fst (search_unsplash_image e d t) = Some [])
       \<and> (\<exists>err. fst (get_amap_static_image e l markers 12 (snd (search_unsplash_image e d t)))
                  = Inl err)"
  then have "search_destination_image e d (Some l) markers t
     = static_map_or_web e d (Some l) markers (snd (search_unsplash_image e d t))"
    by (intro premium_miss) simp
  moreover from a obtain err where
    "fst (get_amap_static_image e l markers 12 (snd (search_unsplash_image e d t))) = Inl err"
    by blast
  then have "static_map_or_web e d (Some l) markers (snd (search_unsplash_image e d t))
     = web_image_search e d (snd (search_unsplash_image e d t))"
    by (rule static_map_raises)
  ultimately show "search_destination_image e d (Some l) markers t
         = web_image_search e d (snd (search_unsplash_image e d t))"
    by simp
next
  fix err t'
  assume "ddgs_images e t' (image_query d) 20 = Inl err"
  then show "fst (web_image_search e d t') = None"
    by (simp add: web_search_fails)
next
  fix ms
  assume "(fst (search_unsplash_image e d t) = None
             \<or> fst (search_unsplash_image e d t) = Some [])
         \<and> \<not> list_all is_dict (take 5 ms)"
  then show "fst (get_amap_static_image e l (Some ms) 12 (snd (search_unsplash_image e d t)))
           = Inl AttributeError"
    by (simp add: static_map_bad_marker(1))
next
  fix ms
  assume a: "(fst (search_unsplash_image e d t) = None
             \<or> fst (search_unsplash_image e d t) = Some [])
         \<and> \<not> list_all is_dict (take 5 ms)"
  then have "search_destination_image e d location (Some ms) t
     = static_map_or_web e d location (Some ms) (snd (search_unsplash_image e d t))"
    by (intro premium_miss) simp
  with a show "search_destination_image e d location (Some ms) t
           = web_image_search e d (snd (search_unsplash_image e d t))"
    by (simp add: static_map_bad_marker(2))
qed

theorem image_tier_order_witness:
  "search_destination_image premium_env [26477, 24030] (Some (ascii ''120.1,30.2'')) None []
     = (Some (ascii ''https://images.unsplash.com/p1''), [UnsplashGet (image_query [26477, 24030])])
   \<and> (\<exists>url. search_destination_image map_key_env [26477, 24030] (Some (ascii ''120.1,30.2'')) None []
         = (Some url, [AmapStaticImage (ascii ''120.1,30.2'')]))
   \<and> search_destination_image offline [26477, 24030] None None []
     = (None, [DdgsImages (image_query [26477, 24030]) 20])
   \<and> search_destination_image map_key_env [26477, 24030] (Some (ascii ''120.1,30.2''))
       (Some [JNull]) []
     = (None, [DdgsImages (image_query [26477, 24030]) 20])"
proof -
  note t = image_tier_order [where d = "[26477, 24030]" and t = "[]"]
  have p: "unsplash_access_key premium_env \<noteq> []
      \<and> unsplash_get premium_env [] (image_query [26477, 24030])
          = Inr (200, ascii ''https://images.unsplash.com/p1'' # [])
      \<and> ascii ''https://images.unsplash.com/p1'' \<noteq> []"
    by (simp add: premium_env_def offline_def ascii_def)
  have 1: "search_destination_image premium_env [26477, 24030] (Some (ascii ''120.1,30.2'')) None []
     = (Some (ascii ''https://images.unsplash.com/p1''), [UnsplashGet (image_query [26477, 24030])])"
    using t [where e = premium_env, THEN conjunct1, rule_format, OF p] by simp
  have k: "unsplash_access_key map_key_env = []" "unsplash_access_key offline = []"
    by (simp_all add: map_key_env_def offline_def)
  have u: "search_unsplash_image map_key_env [26477, 24030] [] = (None, [])"
    "search_unsplash_image offline [26477, 24030] [] = (None, [])"
    using t [where e = map_key_env, THEN conjunct2, THEN conjunct1] k(1)
      t [where e = offline, THEN conjunct2, THEN conjunct1] k(2)
    by simp_all
  have m: "(fst (search_unsplash_image map_key_env [26477, 24030] []) = None
        \<or> fst (search_unsplash_image map_key_env [26477, 24030] []) = Some [])
      \<and> ascii ''120.1,30.2'' \<noteq> [] \<and> amap_web_key map_key_env \<noteq> []
      \<and> (\<forall>ms. (None :: json list option) = Some ms \<longrightarrow> list_all is_dict (take 5 ms))"
    by (simp add: u, simp add: map_key_env_def offline_def ascii_def)
  have 2: "\<exists>url. search_destination_image map_key_env [26477, 24030] (Some (ascii ''120.1,30.2'')) None []
         = (Some url, [AmapStaticImage (ascii ''120.1,30.2'')])"
    using t [where e = map_key_env and l = "ascii ''120.1,30.2''" and markers = None,
        THEN conjunct2, THEN conjunct2, THEN conjunct2, THEN conjunct1, rule_format, OF m]
    by (auto simp: u)
  have o: "(fst (search_unsplash_image offline [26477, 24030] []) = None
        \<or> fst (search_unsplash_image offline [26477, 24030] []) = Some [])
      \<and> ((None :: pystr option) = None \<or> (None :: pystr option) = Some [] \<or> amap_web_key offline = [])"
    by (simp add: u)
  have d: "ddgs_images offline [] (image_query [26477, 24030]) 20 = Inl ProviderError"
    by (simp add: offline_def)
  have 3: "search_destination_image offline [26477, 24030] None None []
     = (None, [DdgsImages (image_query [26477, 24030]) 20])"
    using t [where e = offline and location = None,
        THEN conjunct2, THEN conjunct2, THEN conjunct2, THEN conjunct2, THEN conjunct1,
        rule_format, OF o] web_search_fails [OF d]
    by (simp add: u)
  have b: "(fst (search_unsplash_image map_key_env [26477, 24030] []) = None
        \<or> fst (search_unsplash_image map_key_env [26477, 24030] []) = Some [])
      \<and> \<not> list_all is_dict (take 5 [JNull])"
    by (simp add: u is_dict_def)
  have d': "ddgs_images map_key_env [] (image_query [26477, 24030]) 20 = Inl ProviderError"
    by (simp add: map_key_env_def offline_def)
  have 4: "search_destination_image map_key_env [26477, 24030] (Some (ascii ''120.1,30.2''))
       (Some [JNull]) []
     = (None, [DdgsImages (image_query [26477, 24030]) 20])"
    using t [where e = map_key_env and location = "Some (ascii ''120.1,30.2'')",
        THEN conjunct2, THEN conjunct2, THEN conjunct2, THEN conjunct2, THEN conjunct2,
        THEN conjunct2, THEN conjunct2, rule_format, OF b, THEN conjunct2]
      web_search_fails [OF d']
    by (simp add: u)
  from 1 2 3 4 show ?thesis by simp
qed

text \<open>
  C5 as stated fails when a marker is not a dict: with the premium tier unconfigured, a
  centre coordinate and a configured map key, and one marker that is a string (the
  location of a POI as the map provider gives it), the static-map URL is not returned;
  the web search is made, and here it finds nothing.
\<close>

theorem image_tier_counterexample:
  "unsplash_access_key map_key_env = [] \<and> amap_web_key map_key_env = ascii ''key''
   \<and> search_destination_image map_key_env [26477, 24030] (Some (ascii ''120.1,30.2''))
       (Some [JStr (ascii ''120.2,30.3'')]) []
     = (None, [DdgsImages (image_query [26477, 24030]) 20])"
  by (simp add: search_destination_image_def search_unsplash_image_def static_map_or_web_def
      get_amap_static_image_def static_map_params_def marker_coordinate_def py_get_def
      web_image_search_def search_web_images_def map_key_env_def offline_def ascii_def Let_def)

lemma collect_valid_take:
  "length acc < 5 \<Longrightarrow> collect_valid e rs acc = take 5 (acc @ surviving_urls e rs)"
proof (induction rs arbitrary: acc)
  case Nil
  then show ?case by (simp add: surviving_urls_def map_filter_simps)
next
  case (Cons r rs)
  have s: "surviving_urls e (r # rs)
      = (case image_or_thumbnail r of
           None \<Rightarrow> surviving_urls e rs
         | Some url \<Rightarrow> if survives e url then url # surviving_urls e rs else surviving_urls e rs)"
    by (simp add: surviving_urls_def map_filter_simps split: option.splits)
  show ?case
  proof (cases "image_or_thumbnail r")
    case None
    with Cons show ?thesis by (simp add: s)
  next
    case (Some url)
    show ?thesis
    proof (cases "survives e url")
      case False
      with Some Cons show ?thesis
        by (auto simp: s survives_def)
    next
      case True
      show ?thesis
      proof (cases "length acc = 4")
        case True
        with \<open>survives e url\<close> Some show ?thesis
          by (simp add: s survives_def)
      next
        case False
        with Cons.prems have "length (acc @ [url]) < 5" by simp
        from Cons.IH [OF this] \<open>survives e url\<close> Some False Cons.prems show ?thesis
          by (simp add: s survives_def)
      qed
    qed
  qed
qed

lemma surviving_urls_survive: "u \<in> set (surviving_urls e rs) \<Longrightarrow> survives e u"
  by (induction rs)
    (auto simp: surviving_urls_def map_filter_simps split: option.splits if_splits)

lemma verify_snd: "snd (verify_image_accessible e u t) = t @ [HttpHead u]"
  by (simp add: verify_image_accessible_def)

lemma verify_iff:
  "fst (verify_image_accessible e u t) \<longleftrightarrow>
     (\<exists>ct. http_head e t u = Inr (200, ct)
        \<and> (sublist (ascii ''image/'') (str_lower e ct)
           \<or> sublist (ascii ''octet-stream'') (str_lower e ct)))"
  by (auto simp: verify_image_accessible_def split: sum.splits)

lemma verify_first_None_iff: "fst (verify_first e us t) = None \<longleftrightarrow> all_fail e us t"
  by (induction us arbitrary: t) (simp_all add: verify_snd)

lemma verify_first_Some:
  "fst (verify_first e us t) = Some u \<Longrightarrow>
     \<exists>pre post. us = pre @ u # post \<and> all_fail e pre t
       \<and> fst (verify_image_accessible e u (t @ map HttpHead pre))
       \<and> snd (verify_first e us t) = t @ map HttpHead pre @ [HttpHead u]"
proof (induction us arbitrary: t)
  case Nil
  then show ?case by simp
next
  case (Cons x xs)
  show ?case
  proof (cases "fst (verify_image_accessible e x t)")
    case True
    with Cons.prems have "u = x" by simp
    with True show ?thesis
      by (intro exI [of _ "[]"] exI [of _ xs]) (simp add: verify_snd)
  next
    case False
    with Cons.prems have "fst (verify_first e xs (t @ [HttpHead x])) = Some u"
      by (simp add: verify_snd)
    from Cons.IH [OF this] obtain pre post where
      "xs = pre @ u # post" "all_fail e pre (t @ [HttpHead x])"
      "fst (verify_image_accessible e u ((t @ [HttpHead x]) @ map HttpHead pre))"
      "snd (verify_first e xs (t @ [HttpHead x])) = (t @ [HttpHead x]) @ map HttpHead pre @ [HttpHead u]"
      by blast
    with False show ?thesis
      by (intro exI [of _ "x # pre"] exI [of _ post]) (simp add: verify_snd)
  qed
qed

text \<open>
  C6 (as the code has it). The candidates of the web-search tier are the first five URLs
  of the results, in order, that are HTTPS, contain no blacklisted domain and match the
  allowlist (after lower-casing). They are probed in that order. A probe succeeds exactly
  when the \<open>HEAD\<close> request answers with status 200 and a content type that contains
  \<open>image/\<close> or \<open>octet-stream\<close>. The result is the first candidate whose probe succeeds,
  all candidates before it having failed, and \<open>None\<close> exactly when every probe fails
  (or there is no candidate).
\<close>

theorem web_image_filter_and_probe:
  fixes e :: env and d :: pystr and t :: "call list"
  defines "results \<equiv> fst (search_web_images e (image_query d) 20 t)"
    and "t1 \<equiv> t @ [DdgsImages (image_query d) 20]"
  defines "candidates \<equiv> collect_valid e results []"
  shows "candidates = take 5 (surviving_urls e results)
     \<and> length candidates \<le> 5
     \<and> (\<forall>url \<in> set candidates. is_https url \<and> \<not> is_blacklisted url \<and> is_allowlisted e url)
     \<and> (\<forall>url t'. fst (verify_image_accessible e url t') \<longleftrightarrow>
          (\<exists>ct. http_head e t' url = Inr (200, ct)
             \<and> (sublist (ascii ''image/'') (str_lower e ct)
                \<or> sublist (ascii ''octet-stream'') (str_lower e ct))))
     \<and> (fst (web_image_search e d t) = None \<longleftrightarrow> all_fail e candidates t1)
     \<and> (\<forall>url. fst (web_image_search e d t) = Some url \<longrightarrow>
          (\<exists>pre post. candidates = pre @ url # post \<and> all_fail e pre t1
             \<and> fst (verify_image_accessible e url (t1 @ map HttpHead pre))
             \<and> snd (web_image_search e d t) = t1 @ map HttpHead pre @ [HttpHead url]))"
proof -
  have c: "candidates = take 5 (surviving_urls e results)"
    unfolding candidates_def by (simp add: collect_valid_take)
  have l: "length candidates \<le> 5"
    by (simp add: c)
  have s: "is_https url \<and> \<not> is_blacklisted url \<and> is_allowlisted e url"
    if "url \<in> set candidates" for url
  proof -
    from that have "url \<in> set (surviving_urls e results)"
      unfolding c by (rule in_set_takeD)
    then have "survives e url" by (rule surviving_urls_survive)
    then show ?thesis by (simp add: survives_def)
  qed
  have w: "web_image_search e d t = verify_first e candidates t1"
    by (cases "candidates = []")
      (simp_all add: web_image_search_def search_web_images_def candidates_def results_def
        t1_def Let_def)
  have n: "fst (web_image_search e d t) = None \<longleftrightarrow> all_fail e candidates t1"
    by (simp add: w verify_first_None_iff)
  have f: "\<exists>pre post. candidates = pre @ url # post \<and> all_fail e pre t1
             \<and> fst (verify_image_accessible e url (t1 @ map HttpHead pre))
             \<and> snd (web_image_search e d t) = t1 @ map HttpHead pre @ [HttpHead url]"
    if "fst (web_image_search e d t) = Some url" for url
    using that unfolding w by (rule verify_first_Some)
  from c l s n f verify_iff show ?thesis
    by blast
qed

theorem web_image_filter_and_probe_witness:
  "fst (web_image_search jpeg_env [26477, 24030] []) = Some (ascii ''https://a.io/b.jpg'')"
proof -
  have r: "fst (search_web_images jpeg_env (image_query [26477, 24030]) 20 []) = one_candidate"
    by (simp add: search_web_images_def jpeg_env_def offline_def)
  have c: "collect_valid jpeg_env one_candidate [] = [ascii ''https://a.io/b.jpg'']"
    by (simp add: one_candidate_def image_or_thumbnail_def is_https_def is_blacklisted_def
        is_allowlisted_def invalid_domains_def valid_patterns_def jpeg_env_def offline_def
        ascii_def sublist_code)
  have v: "fst (verify_image_accessible jpeg_env (ascii ''https://a.io/b.jpg'')
      [DdgsImages (image_query [26477, 24030]) 20])"
    by (simp add: verify_image_accessible_def jpeg_env_def offline_def ascii_def sublist_code)
  then have nf: "\<not> all_fail jpeg_env [ascii ''https://a.io/b.jpg'']
      ([] @ [DdgsImages (image_query [26477, 24030]) 20])"
    by simp
  note T = web_image_filter_and_probe [of jpeg_env "[26477, 24030]" "[]", unfolded r c]
  from T have "fst (web_image_search jpeg_env [26477, 24030] []) = None
      \<longleftrightarrow> all_fail jpeg_env [ascii ''https://a.io/b.jpg'']
            ([] @ [DdgsImages (image_query [26477, 24030]) 20])"
    by blast
  with nf obtain url where u: "fst (web_image_search jpeg_env [26477, 24030] []) = Some url"
    by auto
  with T obtain pre post where "[ascii ''https://a.io/b.jpg''] = pre @ url # post"
    by blast
  then have "url = ascii ''https://a.io/b.jpg''"
    by (cases pre) simp_all
  with u show ?thesis by simp
qed

text \<open>
  C6 as stated fails on the content type: a candidate whose probe answers with status 200
  and the content type \<open>application/octet-stream\<close>, which is no image type, is verified
  and returned.
\<close>

theorem web_image_probe_counterexample:
  "search_destination_image octet_env [26477, 24030] None None []
     = (Some (ascii ''https://a.io/b.jpg''),
        [DdgsImages (image_query [26477, 24030]) 20, HttpHead (ascii ''https://a.io/b.jpg'')])
   \<and> http_head octet_env [DdgsImages (image_query [26477, 24030]) 20] (ascii ''https://a.io/b.jpg'')
     = Inr (200, ascii ''application/octet-stream'')
   \<and> \<not> sublist (ascii ''image/'') (str_lower octet_env (ascii ''application/octet-stream''))"
  by (simp add: search_destination_image_def search_unsplash_image_def static_map_or_web_def
      web_image_search_def search_web_images_def verify_image_accessible_def
      one_candidate_def image_or_thumbnail_def is_https_def is_blacklisted_def
      is_allowlisted_def invalid_domains_def valid_patterns_def octet_env_def offline_def
      ascii_def sublist_code Let_def)

section \<open>Properties of the plan enricher\<close>

lemma enrich_keys_neq:
  "ascii ''routes'' \<noteq> ascii ''pois''"
  "ascii ''created_at'' \<noteq> ascii ''daily_plans''"
  "ascii ''id'' \<noteq> ascii ''daily_plans''"
  by (simp_all add: ascii_def)

lemma map_of_update_other:
  "k \<noteq> k' \<Longrightarrow> map_of (AList.update k v kvs) k' = map_of kvs k'"
  by (simp add: update_conv')

lemma map_of_update_same: "map_of (AList.update k v kvs) k = Some v"
  by (simp add: update_conv')

lemma route_not_lookup: "is_route_call c \<Longrightarrow> \<not> is_lookup_call c"
  by (cases c) simp_all

lemma routes_not_lookups: "list_all is_route_call rc \<Longrightarrow> \<not> list_ex is_lookup_call rc"
  by (induction rc) (simp_all add: route_not_lookup)

text \<open>The loop body leaves a complete POI as it is and makes no call.\<close>

lemma enrich_poi_complete:
  "complete_poi p \<Longrightarrow> \<exists>kvs. p = JObj kvs \<and> enrich_poi e request p t = (Inr kvs, t)"
  by (cases p) (simp_all add: complete_poi_def enrich_poi_def)

lemma enrich_pois_complete:
  "list_all complete_poi ps \<Longrightarrow>
     \<exists>kss. enrich_pois e request ps t = (Inr kss, t) \<and> map JObj kss = ps"
proof (induction ps)
  case Nil
  then show ?case by simp
next
  case (Cons p ps)
  then obtain kvs where p: "p = JObj kvs" "enrich_poi e request p t = (Inr kvs, t)"
    using enrich_poi_complete [of p e request t] by auto
  from Cons obtain kss where "enrich_pois e request ps t = (Inr kss, t)" "map JObj kss = ps"
    by auto
  with p show ?case by simp
qed

lemma calculate_route_snd:
  "\<exists>c. snd (calculate_route e a b m city t) = t @ [c] \<and> is_route_call c"
  by (cases m) (simp_all add: calculate_route_def)

lemma route_between_trace:
  "\<exists>rc. snd (route_between e request p q t) = t @ rc \<and> list_all is_route_call rc"
proof (cases "truthy (dict_get p (ascii ''location'')) \<and> truthy (dict_get q (ascii ''location''))")
  case False
  then show ?thesis by (auto simp: route_between_def)
next
  case True
  let ?c = "calculate_route e (dict_get p (ascii ''location'')) (dict_get q (ascii ''location''))
     (req_transport_mode request) (req_destination request) t"
  obtain r t' where r: "?c = (r, t')" by (cases ?c)
  from calculate_route_snd [of e "dict_get p (ascii ''location'')"
      "dict_get q (ascii ''location'')" "req_transport_mode request" "req_destination request" t]
  obtain c where "t' = t @ [c]" "is_route_call c" by (auto simp: r)
  moreover have "snd (route_between e request p q t) = t'"
    using True by (auto simp: route_between_def r split: sum.splits option.splits)
  ultimately show ?thesis by simp
qed

lemma day_routes_trace:
  "\<exists>rc. snd (day_routes e request ps t) = t @ rc \<and> list_all is_route_call rc"
proof (induction ps arbitrary: t)
  case Nil
  then show ?case by simp
next
  case (Cons p ps)
  show ?case
  proof (cases ps)
    case Nil
    then show ?thesis by simp
  next
    case (Cons q rest)
    obtain r t1 where r: "route_between e request p q t = (r, t1)"
      by (cases "route_between e request p q t")
    with route_between_trace [of e request p q t] obtain rc1
      where 1: "t1 = t @ rc1" "list_all is_route_call rc1" by auto
    obtain rs t2 where rs: "day_routes e request (q # rest) t1 = (rs, t2)"
      by (cases "day_routes e request (q # rest) t1")
    with Cons.IH [of t1] Cons obtain rc2
      where 2: "t2 = t1 @ rc2" "list_all is_route_call rc2" by auto
    from rs have rs': "day_routes e request (q # rest) (t @ rc1) = (rs, t @ rc1 @ rc2)"
      by (simp add: 1 2)
    from r have r': "route_between e request p q t = (r, t @ rc1)"
      by (simp add: 1)
    have "snd (day_routes e request (p # ps) t) = t @ (rc1 @ rc2)"
      by (simp add: Cons r' rs')
    moreover have "list_all is_route_call (rc1 @ rc2)"
      using 1 2 by simp
    ultimately show ?thesis by blast
  qed
qed

lemma enrich_day_complete:
  assumes "complete_day d"
  shows "\<exists>d' rc. enrich_day e request d t = (Inr d', t @ rc) \<and> list_all is_route_call rc
     \<and> day_pois d' = day_pois d \<and> complete_day d'"
proof -
  from assms obtain kvs where d: "d = JObj kvs"
    by (cases d) (simp_all add: complete_day_def)
  show ?thesis
  proof (cases "map_of kvs (ascii ''pois'')")
    case None
    obtain routes t2 where r: "day_routes e request [] t = (routes, t2)"
      by (cases "day_routes e request [] t")
    then have t2: "t2 = t" by simp
    let ?d' = "JObj (AList.update (ascii ''routes'') (JArr routes) kvs)"
    have "enrich_day e request d t = (Inr ?d', t @ [])"
      using r t2 by (simp add: enrich_day_def d None py_iter_def store_back_def)
    moreover have "day_pois ?d' = day_pois d" "complete_day ?d'"
      by (simp_all add: day_pois_def complete_day_def d None map_of_update_other enrich_keys_neq)
    ultimately show ?thesis
      by (intro exI [of _ ?d'] exI [of _ "[]"]) simp
  next
    case (Some v)
    with assms d obtain ps where v: "v = JArr ps" and c: "list_all complete_poi ps"
      by (cases v) (simp_all add: complete_day_def)
    from enrich_pois_complete [OF c, of e request t] obtain kss
      where k: "enrich_pois e request ps t = (Inr kss, t)" "map JObj kss = ps" by blast
    obtain routes t2 where r: "day_routes e request kss t = (routes, t2)"
      by (cases "day_routes e request kss t")
    with day_routes_trace [of e request kss t] obtain rc
      where rc: "t2 = t @ rc" "list_all is_route_call rc" by auto
    let ?d' = "JObj (AList.update (ascii ''routes'') (JArr routes)
        (AList.update (ascii ''pois'') (JArr ps) kvs))"
    have "enrich_day e request d t = (Inr ?d', t @ rc)"
      using k r rc by (simp add: enrich_day_def d Some v py_iter_def store_back_def)
    moreover have "map_of (AList.update (ascii ''routes'') (JArr routes)
        (AList.update (ascii ''pois'') (JArr ps) kvs)) (ascii ''pois'') = Some (JArr ps)"
      by (simp add: map_of_update_other enrich_keys_neq map_of_update_same)
    then have "day_pois ?d' = day_pois d" "complete_day ?d'"
      using c by (simp_all add: day_pois_def complete_day_def d Some v)
    ultimately show ?thesis
      using rc(2) by (intro exI [of _ ?d'] exI [of _ rc]) simp
  qed
qed

lemma enrich_days_complete:
  "list_all complete_day ds \<Longrightarrow>
     \<exists>ds' rc. enrich_days e request ds t = (Inr ds', t @ rc) \<and> list_all is_route_call rc
       \<and> map day_pois ds' = map day_pois ds \<and> list_all complete_day ds'"
proof (induction ds arbitrary: t)
  case Nil
  show ?case
    by (intro exI [of _ "[]"]) simp
next
  case (Cons d ds)
  then have "complete_day d" by simp
  from enrich_day_complete [OF this, of e request t] obtain d' rc1 where
    1: "enrich_day e request d t = (Inr d', t @ rc1)" "list_all is_route_call rc1"
      "day_pois d' = day_pois d" "complete_day d'"
    by blast
  from Cons have "list_all complete_day ds" by simp
  from Cons.IH [OF this, of "t @ rc1"] obtain ds' rc2 where
    2: "enrich_days e request ds (t @ rc1) = (Inr ds', (t @ rc1) @ rc2)"
      "list_all is_route_call rc2" "map day_pois ds' = map day_pois ds"
      "list_all complete_day ds'"
    by blast
  show ?case
    using 1 2 by (intro exI [of _ "d' # ds'"] exI [of _ "rc1 @ rc2"]) simp
qed

text \<open>
  C7. On a plan whose POIs all have a non-empty location and a non-empty image URL, the
  enrichment returns a plan with the same POIs day by day (each POI unchanged, so its
  location, address, id and image URL are), and the only calls it makes are route
  computations: no coordinate search and no image lookup. The result is again such a
  plan, so this holds for every further run. For any plan, the loop body leaves a
  complete POI unchanged and makes no call for it.
\<close>

theorem enrich_plan_idempotent_on_complete:
  assumes "complete_plan plan"
  shows "(\<exists>plan' rc. enrich_plan e request plan trace = (Inr plan', trace @ rc)
       \<and> plan_pois plan' = plan_pois plan
       \<and> list_all is_route_call rc \<and> \<not> list_ex is_lookup_call rc
       \<and> complete_plan plan')
     \<and> (\<forall>p t. complete_poi p \<longrightarrow>
          (\<exists>kvs. p = JObj kvs \<and> enrich_poi e request p t = (Inr kvs, t)))"
proof -
  from assms obtain kvs where p: "plan = JObj kvs"
    by (cases plan) (simp_all add: complete_plan_def)
  let ?kvs2 = "AList.update (ascii ''created_at'') (JStr (now_isoformat e trace))
     (AList.update (ascii ''id'') (JStr (take 8 (uuid4 e trace))) kvs)"
  have m: "map_of ?kvs2 (ascii ''daily_plans'') = map_of kvs (ascii ''daily_plans'')"
    by (simp add: map_of_update_other enrich_keys_neq)
  have main: "\<exists>plan' rc. enrich_plan e request plan trace = (Inr plan', trace @ rc)
       \<and> plan_pois plan' = plan_pois plan
       \<and> list_all is_route_call rc \<and> complete_plan plan'"
  proof (cases "map_of kvs (ascii ''daily_plans'')")
    case None
    have "enrich_plan e request plan trace = (Inr (JObj ?kvs2), trace @ [])"
      by (simp add: enrich_plan_def p Let_def m None py_iter_def store_back_def)
    moreover have "plan_pois (JObj ?kvs2) = plan_pois plan" "complete_plan (JObj ?kvs2)"
      by (simp_all add: plan_pois_def complete_plan_def p m None)
    ultimately show ?thesis
      by (intro exI [of _ "JObj ?kvs2"] exI [of _ "[]"]) simp
  next
    case (Some v)
    with assms p obtain ds where v: "v = JArr ds" and c: "list_all complete_day ds"
      by (cases v) (simp_all add: complete_plan_def)
    from enrich_days_complete [OF c, of e request trace] obtain ds' rc where
      d: "enrich_days e request ds trace = (Inr ds', trace @ rc)" "list_all is_route_call rc"
        "map day_pois ds' = map day_pois ds" "list_all complete_day ds'"
      by blast
    let ?plan' = "JObj (AList.update (ascii ''daily_plans'') (JArr ds') ?kvs2)"
    have "enrich_plan e request plan trace = (Inr ?plan', trace @ rc)"
      using d(1) by (simp add: enrich_plan_def p Let_def m Some v py_iter_def store_back_def)
    moreover have "plan_pois ?plan' = plan_pois plan" "complete_plan ?plan'"
      using d(3,4) by (simp_all add: plan_pois_def complete_plan_def p Some v map_of_update_same)
    ultimately show ?thesis
      using d(2) by (intro exI [of _ ?plan'] exI [of _ rc]) simp
  qed
  then obtain plan' rc where "enrich_plan e request plan trace = (Inr plan', trace @ rc)"
    "plan_pois plan' = plan_pois plan" "list_all is_route_call rc" "complete_plan plan'"
    by blast
  moreover from this(3) have "\<not> list_ex is_lookup_call rc"
    by (rule routes_not_lookups)
  ultimately have "\<exists>plan' rc. enrich_plan e request plan trace = (Inr plan', trace @ rc)
       \<and> plan_pois plan' = plan_pois plan
       \<and> list_all is_route_call rc \<and> \<not> list_ex is_lookup_call rc
       \<and> complete_plan plan'"
    by blast
  then show ?thesis
    using enrich_poi_complete by blast
qed

theorem enrich_plan_idempotent_on_complete_witness:
  "complete_plan complete_sample_plan
   \<and> (\<exists>plan' rc. enrich_plan offline sample_request complete_sample_plan [] = (Inr plan', rc)
        \<and> plan_pois plan' = [[complete_poi_a, complete_poi_b]]
        \<and> list_all is_route_call rc)"
proof -
  have c: "complete_plan complete_sample_plan"
    by (simp add: complete_plan_def complete_day_def complete_poi_def complete_sample_plan_def
        complete_poi_a_def complete_poi_b_def dict_get_def ascii_def)
  have p: "plan_pois complete_sample_plan = [[complete_poi_a, complete_poi_b]]"
    by (simp add: plan_pois_def day_pois_def complete_sample_plan_def ascii_def)
  from enrich_plan_idempotent_on_complete [OF c, of offline sample_request "[]"] c p
  show ?thesis by auto
qed

section \<open>Properties of the prompt builder\<close>

lemma piece_sublist: "x \<in> set xs \<Longrightarrow> sublist x (concat xs)"
proof -
  assume "x \<in> set xs"
  then obtain ys zs where "xs = ys @ x # zs"
    by (auto dest: split_list)
  then have eq: "concat xs = concat ys @ x @ concat zs"
    by simp
  show ?thesis
    by (subst eq) (rule sublist_appendI)
qed

lemma sublist_after: "sublist x ys \<Longrightarrow> sublist x (ps @ ys)"
  by (rule sublist_order.order.trans [OF _ sublist_append_leftI])

lemma sublist_before: "sublist x ys \<Longrightarrow> sublist x (ys @ ss)"
  by (rule sublist_order.order.trans [OF _ sublist_append_rightI])

lemma joined_sublist: "x \<in> set xs \<Longrightarrow> sublist x (str_join sep xs)"
proof (induction sep xs rule: str_join.induct)
  case (1 sep)
  then show ?case by simp
next
  case (2 sep y)
  then show ?case by simp
next
  case (3 sep y z zs)
  show ?case
  proof (cases "x = y")
    case True
    then show ?thesis by simp
  next
    case False
    with 3 have "sublist x (str_join sep (z # zs))" by simp
    then have "sublist x (sep @ str_join sep (z # zs))" by (rule sublist_after)
    then have "sublist x (y @ sep @ str_join sep (z # zs))" by (rule sublist_after)
    then show ?thesis by simp
  qed
qed

lemma prefs_sublist: "p \<in> set (req_preferences request) \<Longrightarrow> sublist p (prefs_text request)"
  by (auto simp: prefs_text_def joined_sublist)

lemma attraction_names:
  assumes "f \<in> set (take 10 (ctx_attractions ctx))"
  shows "sublist (poi_name f) (attractions_info e ctx)"
proof -
  from assms have "ctx_attractions ctx \<noteq> []" by auto
  moreover from assms have "poi_name f \<in> set (map poi_name (take 10 (ctx_attractions ctx)))"
    by simp
  then have "sublist (poi_name f)
      (str_join (ascii '', '') (map poi_name (take 10 (ctx_attractions ctx))))"
    by (rule joined_sublist)
  ultimately show ?thesis
    by (simp add: attractions_info_def sublist_after)
qed

lemma hotel_names:
  assumes "f \<in> set (take 5 (ctx_hotels ctx))"
  shows "sublist (poi_name f) (hotel_info e ctx)"
proof -
  from assms have "ctx_hotels ctx \<noteq> []" by auto
  moreover from assms have "poi_name f \<in> set (map poi_name (take 5 (ctx_hotels ctx)))"
    by simp
  then have "sublist (poi_name f)
      (str_join (ascii '', '') (map poi_name (take 5 (ctx_hotels ctx))))"
    by (rule joined_sublist)
  ultimately show ?thesis
    by (simp add: hotel_info_def sublist_after)
qed

lemma photo_names:
  assumes "ctx_photo_spots ctx = Some spots" and "f \<in> set (take 5 spots)"
  shows "sublist (poi_name f) (photo_info e ctx)"
proof -
  from assms have "spots \<noteq> []" by auto
  moreover from assms have "poi_name f \<in> set (map poi_name (take 5 spots))"
    by simp
  then have "sublist (poi_name f) (str_join (ascii '', '') (map poi_name (take 5 spots)))"
    by (rule joined_sublist)
  ultimately show ?thesis
    by (simp add: photo_info_def assms(1) sublist_after)
qed

lemma food_names:
  assumes "f \<in> set (take 8 (ctx_food ctx))"
  shows "sublist (poi_name f) (food_info e ctx)"
proof -
  let ?entry = "\<lambda>f. poi_name f @ [40] @ py_str e (poi_rating f) @ [20998, 41]"
  from assms have "ctx_food ctx \<noteq> []" by auto
  moreover from assms have "?entry f \<in> set (map ?entry (take 8 (ctx_food ctx)))"
    by simp
  then have "sublist (?entry f) (str_join (ascii '', '') (map ?entry (take 8 (ctx_food ctx))))"
    by (rule joined_sublist)
  then have "sublist (poi_name f) (str_join (ascii '', '') (map ?entry (take 8 (ctx_food ctx))))"
    by (rule sublist_order.order.trans [OF sublist_append_rightI])
  ultimately show ?thesis
    by (simp add: food_info_def sublist_after)
qed

lemma fence_in_instruction: "sublist (ascii ''```json```'') json_instruction"
proof -
  have eq: "json_instruction =
      ([65292, 26368, 21518, 38468, 19978] @ ascii ''JSON''
        @ [26684, 24335, 30340, 32467, 26500, 21270, 25968, 25454, 65288, 29992])
      @ ascii ''```json```'' @ [21253, 35065, 65289, 12290]"
    by (simp add: json_instruction_def)
  show ?thesis
    by (subst eq) (rule sublist_appendI)
qed

text \<open>What both templates hold, and what only the planning template holds.\<close>

lemma travelogue_holds:
  "x \<in> {req_destination request, str_int (req_days request), prefs, food, hotel,
        json_instruction}
    \<Longrightarrow> sublist x (build_travelogue_prompt e request prefs food hotel trace)"
  unfolding build_travelogue_prompt_def
  by (rule piece_sublist) (auto simp: travelogue_pieces_def)

lemma planning_holds:
  "x \<in> {req_destination request, str_int (req_days request), prefs_text request,
        attractions_info e ctx, food_info e ctx, hotel_info e ctx, photo_info e ctx,
        json_instruction}
    \<Longrightarrow> sublist x (concat (planning_pieces e request ctx summary frag))"
  by (rule piece_sublist) (auto simp: planning_pieces_def)

lemma build_prompt_cases:
  assumes "build_prompt_with_intent e request ctx intent mode trace = Inr prompt"
  shows "(mode = ascii ''travelogue''
        \<and> prompt = build_travelogue_prompt e request (prefs_text request)
                     (food_info e ctx) (hotel_info e ctx) trace)
     \<or> (mode \<noteq> ascii ''travelogue''
        \<and> (\<exists>summary frag. prompt = concat (planning_pieces e request ctx summary frag)))"
  using assms
  by (auto simp: build_prompt_with_intent_def on_ok_def split: sum.splits if_splits)

lemma joined_part_readable:
  assumes "key_ok is_str_list kvs k"
  shows "\<exists>ps. joined_part e (JObj kvs) k seg = Inr ps"
proof (cases "map_of kvs (ascii k)")
  case None
  then show ?thesis
    by (simp add: joined_part_def py_get_def on_ok_def)
next
  case (Some v)
  with assms obtain xs where v: "v = JArr xs" and s: "list_all is_str xs"
    by (cases v) (simp_all add: key_ok_def is_str_list_def)
  from s have "list_all (\<lambda>x. case x of JStr s \<Rightarrow> True | _ \<Rightarrow> False) xs"
    by (simp add: is_str_def [abs_def])
  then show ?thesis
    by (simp add: joined_part_def py_get_def on_ok_def Some v py_join_def py_iter_def)
qed

lemma intent_summary_readable:
  assumes "readable_intent intent"
  shows "\<exists>summary. intent_summary e intent = Inr summary"
proof -
  from assms obtain kvs where i: "intent = JObj kvs"
    by (cases intent) (simp_all add: readable_intent_def)
  with assms have k: "key_ok is_str_list kvs ''specific_places''"
    "key_ok is_str_list kvs ''must_eat''" "key_ok is_str_list kvs ''special_needs''"
    by (simp_all add: readable_intent_def)
  from joined_part_readable [OF k(1)] obtain a
    where a: "joined_part e (JObj kvs) ''specific_places'' 36 = Inr a" by blast
  from joined_part_readable [OF k(2)] obtain b
    where b: "joined_part e (JObj kvs) ''must_eat'' 37 = Inr b" by blast
  from joined_part_readable [OF k(3)] obtain c
    where c: "joined_part e (JObj kvs) ''special_needs'' 39 = Inr c" by blast
  show ?thesis
    by (simp add: intent_summary_def i a b c on_ok_def py_get_def)
qed

text \<open>A plain gathered weather yields no weather fragment: the builder reads the keys
  \<open>lives\<close> and \<open>casts\<close>, which the gathered weather does not have.\<close>

lemma plain_weather_fragments:
  assumes "ctx_weather ctx = Some (weather_json w)" and "plain_weather w"
  shows "weather_fragments e request ctx = Inr ([], [])"
proof -
  have k: "ascii ''lives'' \<noteq> ascii ''live''" "ascii ''lives'' \<noteq> ascii ''forecasts''"
    "ascii ''forecasts'' \<noteq> ascii ''live''"
    by (simp_all add: ascii_def)
  have i: "weather_info e (weather_json w) = Inr []"
    by (simp add: weather_info_def weather_json_def py_get_def on_ok_def k)
  have t: "weather_tips e request (weather_json w) = Inr []"
  proof (cases "w_forecasts w")
    case Nil
    then show ?thesis
      by (simp add: weather_tips_def weather_json_def py_get_def on_ok_def k)
  next
    case (Cons first others)
    with assms(2) show ?thesis
      by (cases first)
        (auto simp: weather_tips_def weather_json_def py_get_def on_ok_def k plain_weather_def
          split: option.splits)
  qed
  show ?thesis
    by (simp add: weather_fragments_def assms(1) i t on_ok_def)
qed

lemma build_prompt_total:
  assumes "readable_intent intent"
    and "ctx_weather ctx = None \<or> (\<exists>w. ctx_weather ctx = Some (weather_json w) \<and> plain_weather w)"
  shows "\<exists>prompt. build_prompt_with_intent e request ctx intent mode trace = Inr prompt"
proof -
  from intent_summary_readable [OF assms(1)] obtain summary
    where s: "intent_summary e intent = Inr summary" by blast
  from assms(2) have "weather_fragments e request ctx = Inr ([], [])"
    by (auto simp: plain_weather_fragments) (simp add: weather_fragments_def)
  with s show ?thesis
    by (simp add: build_prompt_with_intent_def on_ok_def)
qed

text \<open>
  C8 (as the code has it). Whenever the builder returns a prompt, in either mode, the
  prompt holds the destination, the days, the preference text (so each preference) and
  the instruction to append a fenced JSON block, and it embeds the food and the hotel
  fragment (the names of the first 8 restaurants and the first 5 hotels). In planning
  mode it also embeds the attractions and the photo-spot fragment (the names of the first
  10 attractions and the first 5 photo spots). It returns a prompt for every readable
  intent when the gathered weather is absent or plain.
\<close>

theorem build_prompt_embeds:
  "(readable_intent intent
      \<and> (ctx_weather ctx = None
         \<or> (\<exists>w. ctx_weather ctx = Some (weather_json w) \<and> plain_weather w)) \<longrightarrow>
      (\<exists>prompt. build_prompt_with_intent e request ctx intent mode trace = Inr prompt))
   \<and> (\<forall>prompt. build_prompt_with_intent e request ctx intent mode trace = Inr prompt \<longrightarrow>
        sublist (req_destination request) prompt
      \<and> sublist (str_int (req_days request)) prompt
      \<and> sublist (prefs_text request) prompt
      \<and> (\<forall>p \<in> set (req_preferences request). sublist p prompt)
      \<and> sublist json_instruction prompt
      \<and> sublist (ascii ''```json```'') prompt
      \<and> sublist (food_info e ctx) prompt
      \<and> (\<forall>f \<in> set (take 8 (ctx_food ctx)). sublist (poi_name f) prompt)
      \<and> sublist (hotel_info e ctx) prompt
      \<and> (\<forall>h \<in> set (take 5 (ctx_hotels ctx)). sublist (poi_name h) prompt)
      \<and> (mode \<noteq> ascii ''travelogue'' \<longrightarrow>
            sublist (attractions_info e ctx) prompt
          \<and> (\<forall>a \<in> set (take 10 (ctx_attractions ctx)). sublist (poi_name a) prompt)
          \<and> sublist (photo_info e ctx) prompt
          \<and> (\<forall>spots. ctx_photo_spots ctx = Some spots \<longrightarrow>
                (\<forall>s \<in> set (take 5 spots). sublist (poi_name s) prompt))))"
proof (rule conjI)
  show "readable_intent intent
      \<and> (ctx_weather ctx = None
         \<or> (\<exists>w. ctx_weather ctx = Some (weather_json w) \<and> plain_weather w)) \<longrightarrow>
      (\<exists>prompt. build_prompt_with_intent e request ctx intent mode trace = Inr prompt)"
    using build_prompt_total by blast
next
  have "sublist (req_destination request) prompt
      \<and> sublist (str_int (req_days request)) prompt
      \<and> sublist (prefs_text request) prompt
      \<and> (\<forall>p \<in> set (req_preferences request). sublist p prompt)
      \<and> sublist json_instruction prompt
      \<and> sublist (ascii ''```json```'') prompt
      \<and> sublist (food_info e ctx) prompt
      \<and> (\<forall>f \<in> set (take 8 (ctx_food ctx)). sublist (poi_name f) prompt)
      \<and> sublist (hotel_info e ctx) prompt
      \<and> (\<forall>h \<in> set (take 5 (ctx_hotels ctx)). sublist (poi_name h) prompt)
      \<and> (mode \<noteq> ascii ''travelogue'' \<longrightarrow>
            sublist (attractions_info e ctx) prompt
          \<and> (\<forall>a \<in> set (take 10 (ctx_attractions ctx)). sublist (poi_name a) prompt)
          \<and> sublist (photo_info e ctx) prompt
          \<and> (\<forall>spots. ctx_photo_spots ctx = Some spots \<longrightarrow>
                (\<forall>s \<in> set (take 5 spots). sublist (poi_name s) prompt)))"
    if b: "build_prompt_with_intent e request ctx intent mode trace = Inr prompt" for prompt
  proof -
    have both: "sublist x prompt"
      if "x \<in> {req_destination request, str_int (req_days request), prefs_text request,
            food_info e ctx, hotel_info e ctx, json_instruction}" for x
      using build_prompt_cases [OF b] that
      by (auto intro!: travelogue_holds planning_holds)
    have planning: "sublist x prompt"
      if "mode \<noteq> ascii ''travelogue''" and "x \<in> {attractions_info e ctx, photo_info e ctx}"
      for x
      using build_prompt_cases [OF b] that
      by (auto intro!: planning_holds)
    have 1: "sublist (req_destination request) prompt" by (rule both) simp
    have 2: "sublist (str_int (req_days request)) prompt" by (rule both) simp
    have 3: "sublist (prefs_text request) prompt" by (rule both) simp
    have 4: "\<forall>p \<in> set (req_preferences request). sublist p prompt"
      using 3 prefs_sublist sublist_order.order.trans by blast
    have 5: "sublist json_instruction prompt" by (rule both) simp
    have 6: "sublist (ascii ''```json```'') prompt"
      using fence_in_instruction 5 by (rule sublist_order.order.trans)
    have 7: "sublist (food_info e ctx) prompt" by (rule both) simp
    have 8: "\<forall>f \<in> set (take 8 (ctx_food ctx)). sublist (poi_name f) prompt"
      using 7 food_names sublist_order.order.trans by blast
    have 9: "sublist (hotel_info e ctx) prompt" by (rule both) simp
    have 10: "\<forall>h \<in> set (take 5 (ctx_hotels ctx)). sublist (poi_name h) prompt"
      using 9 hotel_names sublist_order.order.trans by blast
    have 11: "sublist (attractions_info e ctx) prompt" if "mode \<noteq> ascii ''travelogue''"
      using that by (rule planning) simp
    have 12: "\<forall>a \<in> set (take 10 (ctx_attractions ctx)). sublist (poi_name a) prompt"
      if "mode \<noteq> ascii ''travelogue''"
      using 11 [OF that] attraction_names sublist_order.order.trans by blast
    have 13: "sublist (photo_info e ctx) prompt" if "mode \<noteq> ascii ''travelogue''"
      using that by (rule planning) simp
    have 14: "\<forall>spots. ctx_photo_spots ctx = Some spots \<longrightarrow>
                (\<forall>s \<in> set (take 5 spots). sublist (poi_name s) prompt)"
      if "mode \<noteq> ascii ''travelogue''"
      using 13 [OF that] photo_names sublist_order.order.trans by blast
    from 1 2 3 4 5 6 7 8 9 10 11 12 13 14 show ?thesis
      by (intro conjI impI) assumption+
  qed
  then show "\<forall>prompt. build_prompt_with_intent e request ctx intent mode trace = Inr prompt \<longrightarrow>
        sublist (req_destination request) prompt
      \<and> sublist (str_int (req_days request)) prompt
      \<and> sublist (prefs_text request) prompt
      \<and> (\<forall>p \<in> set (req_preferences request). sublist p prompt)
      \<and> sublist json_instruction prompt
      \<and> sublist (ascii ''```json```'') prompt
      \<and> sublist (food_info e ctx) prompt
      \<and> (\<forall>f \<in> set (take 8 (ctx_food ctx)). sublist (poi_name f) prompt)
      \<and> sublist (hotel_info e ctx) prompt
      \<and> (\<forall>h \<in> set (take 5 (ctx_hotels ctx)). sublist (poi_name h) prompt)
      \<and> (mode \<noteq> ascii ''travelogue'' \<longrightarrow>
            sublist (attractions_info e ctx) prompt
          \<and> (\<forall>a \<in> set (take 10 (ctx_attractions ctx)). sublist (poi_name a) prompt)
          \<and> sublist (photo_info e ctx) prompt
          \<and> (\<forall>spots. ctx_photo_spots ctx = Some spots \<longrightarrow>
                (\<forall>s \<in> set (take 5 spots). sublist (poi_name s) prompt)))"
    by blast
qed

theorem build_prompt_embeds_witness:
  "\<exists>prompt. build_prompt_with_intent offline sample_request (sample_context None)
       (default_intent sample_request) (ascii ''planning'') [] = Inr prompt
     \<and> sublist [26477, 24030] prompt \<and> sublist [35199, 28246] prompt
     \<and> sublist [38754, 39302] prompt \<and> sublist (ascii ''```json```'') prompt"
proof -
  note t = build_prompt_embeds [of "default_intent sample_request" "sample_context None"
      offline sample_request "ascii ''planning''" "[]"]
  have r: "readable_intent (default_intent sample_request)"
    by (simp add: readable_intent_def default_intent_def key_ok_def is_str_list_def is_list_def
        ascii_def)
  have w: "ctx_weather (sample_context None) = None"
    by (simp add: sample_context_def)
  from t r w obtain prompt where p: "build_prompt_with_intent offline sample_request
      (sample_context None) (default_intent sample_request) (ascii ''planning'') [] = Inr prompt"
    by blast
  have m: "ascii ''planning'' \<noteq> ascii ''travelogue''"
    by (simp add: ascii_def)
  have a: "west_lake \<in> set (take 10 (ctx_attractions (sample_context None)))"
    "noodle_house \<in> set (take 8 (ctx_food (sample_context None)))"
    by (simp_all add: sample_context_def)
  have n: "poi_name west_lake = [35199, 28246]" "poi_name noodle_house = [38754, 39302]"
    "req_destination sample_request = [26477, 24030]"
    by (simp_all add: west_lake_def noodle_house_def sample_request_def)
  from t p m a have "sublist (req_destination sample_request) prompt
      \<and> sublist (poi_name west_lake) prompt \<and> sublist (poi_name noodle_house) prompt
      \<and> sublist (ascii ''```json```'') prompt"
    by blast
  with p n show ?thesis by auto
qed

text \<open>
  C8 as stated fails in two ways. In travelogue mode the attractions fragment is not
  embedded: the prompt for a context with the attraction of name U+897F U+6E56 does not
  hold that name. In planning mode a gathered weather is not embedded: for the weather
  that \<open>get_weather\<close> builds from a live report and one cast, the weather fragments are
  empty and the prompt holds neither the reported weather nor the date of the cast.
\<close>

theorem build_prompt_counterexample:
  "ctx_attractions (sample_context None) = [west_lake]
   \<and> (case build_prompt_with_intent offline sample_request (sample_context None) (JObj [])
              (ascii ''travelogue'') [] of
         Inl err \<Rightarrow> False
       | Inr prompt \<Rightarrow> \<not> sublist (poi_name west_lake) prompt)
   \<and> truthy (weather_json sunny)
   \<and> weather_fragments offline sample_request (sample_context (Some (weather_json sunny)))
       = Inr ([], [])
   \<and> (case build_prompt_with_intent offline sample_request
              (sample_context (Some (weather_json sunny))) (JObj []) (ascii ''planning'') [] of
         Inl err \<Rightarrow> False
       | Inr prompt \<Rightarrow> \<not> sublist (ascii ''Sunny'') prompt
                       \<and> \<not> sublist (ascii ''2025-05-01'') prompt)"
proof -
  have i: "intent_summary offline (JObj []) = Inr []"
    by (simp add: intent_summary_def joined_part_def on_ok_def py_get_def)
  have p: "plain_weather sunny"
    by (simp add: plain_weather_def sunny_def ascii_def)
  have w: "weather_fragments offline sample_request (sample_context (Some (weather_json sunny)))
      = Inr ([], [])"
    by (rule plain_weather_fragments [OF _ p]) (simp add: sample_context_def)
  have n: "weather_fragments offline sample_request (sample_context None) = Inr ([], [])"
    by (simp add: weather_fragments_def sample_context_def)
  have d: "str_int 2 = [50]"
    by (simp add: str_int_def digits.simps)
  have m: "ascii ''planning'' \<noteq> ascii ''travelogue''"
    by (simp add: ascii_def)
  have t1: "build_prompt_with_intent offline sample_request (sample_context None) (JObj [])
      (ascii ''travelogue'') []
      = Inr (build_travelogue_prompt offline sample_request (prefs_text sample_request)
          (food_info offline (sample_context None)) (hotel_info offline (sample_context None)) [])"
    by (simp add: build_prompt_with_intent_def i n on_ok_def)
  have t2: "build_travelogue_prompt offline sample_request (prefs_text sample_request)
          (food_info offline (sample_context None)) (hotel_info offline (sample_context None)) []
      = [26477, 24030, 50, 26477, 24030, 50, 26477, 24030, 50,
        32654, 39135, 10, 38754, 39302, 40, 52, 46, 53, 20998, 41] @ json_instruction"
    by (simp add: build_travelogue_prompt_def
        travelogue_pieces_def random_choice_def opening_styles_def personas_def prefs_text_def
        food_info_def hotel_info_def sample_context_def sample_request_def noodle_house_def
        py_str_def d offline_def ascii_def)
  have t: "build_prompt_with_intent offline sample_request (sample_context None) (JObj [])
      (ascii ''travelogue'') [] = Inr ([26477, 24030, 50, 26477, 24030, 50, 26477, 24030, 50,
        32654, 39135, 10, 38754, 39302, 40, 52, 46, 53, 20998, 41] @ json_instruction)"
    by (simp only: t1 t2)
  have l1: "build_prompt_with_intent offline sample_request
      (sample_context (Some (weather_json sunny))) (JObj []) (ascii ''planning'') []
      = Inr (concat (planning_pieces offline sample_request
          (sample_context (Some (weather_json sunny))) [] ([], [])))"
    by (simp add: build_prompt_with_intent_def i w on_ok_def m)
  have l2: "concat (planning_pieces offline sample_request
          (sample_context (Some (weather_json sunny))) [] ([], []))
      = [26477, 24030, 32, 50, 26477, 24030, 50, 32654, 39135, 10, 35199, 28246,
          38754, 39302, 40, 52, 46, 53, 20998, 41, 26477, 24030, 26477, 24030]
          @ json_instruction"
    by (simp add: planning_pieces_def
        weather_section_def intent_text_def transport_desc_def budget_str_def date_str_def
        desc_str_def attractions_info_def photo_info_def prefs_text_def
        food_info_def hotel_info_def sample_context_def sample_request_def noodle_house_def
        west_lake_def py_str_def d offline_def ascii_def)
  have l: "build_prompt_with_intent offline sample_request
      (sample_context (Some (weather_json sunny))) (JObj []) (ascii ''planning'') []
      = Inr ([26477, 24030, 32, 50, 26477, 24030, 50, 32654, 39135, 10, 35199, 28246,
          38754, 39302, 40, 52, 46, 53, 20998, 41, 26477, 24030, 26477, 24030]
          @ json_instruction)"
    by (simp only: l1 l2)
  have s: "\<not> sublist [35199, 28246] ([26477, 24030, 50, 26477, 24030, 50, 26477, 24030, 50,
        32654, 39135, 10, 38754, 39302, 40, 52, 46, 53, 20998, 41] @ json_instruction)"
    by (simp add: json_instruction_def ascii_def sublist_code)
  have u: "\<not> sublist (ascii ''Sunny'') ([26477, 24030, 32, 50, 26477, 24030, 50, 32654, 39135,
          10, 35199, 28246, 38754, 39302, 40, 52, 46, 53, 20998, 41, 26477, 24030, 26477, 24030]
          @ json_instruction)"
    "\<not> sublist (ascii ''2025-05-01'') ([26477, 24030, 32, 50, 26477, 24030, 50, 32654, 39135,
          10, 35199, 28246, 38754, 39302, 40, 52, 46, 53, 20998, 41, 26477, 24030, 26477, 24030]
          @ json_instruction)"
    by (simp_all add: json_instruction_def ascii_def sublist_code)
  have y: "truthy (weather_json sunny)"
    by (simp add: weather_json_def)
  have c: "ctx_attractions (sample_context None) = [west_lake]"
    by (simp add: sample_context_def)
  have k: "poi_name west_lake = [35199, 28246]"
    by (simp add: west_lake_def)
  show ?thesis
    by (simp only: c y w t l k s u sum.case simp_thms)
qed

section \<open>Properties of the pipeline\<close>













































end
